theory Spec2Isabelle
  imports Complex_Main
begin

section \<open>Numbers and utility functions of script.js\<close>

text \<open>
  The spark network of \<^verbatim>\<open>src/script.js\<close> computes on JavaScript numbers. They are
  modelled as real numbers: every arithmetic operation is the exact one, so rounding
  error, overflow, infinities and NaN are outside the model. The functions of
  \<^verbatim>\<open>Math\<close> are the real functions they approximate. The one exception is the
  fading of a connection (\<open>fade_out\<close> below): a strength that the exact subtraction
  takes to 0 can be left a positive residue by the doubles, and the test
  \<^verbatim>\<open>conn.strength <= 0\<close> decides whether the connection stays in the ledger, so
  there the operations are rounded as the doubles round them.
\<close>

text \<open>\<^verbatim>\<open>Math.pow(b, e)\<close> for a base \<open>b \<ge> 0\<close> (and \<open>b > 0\<close> when \<open>e < 0\<close>): every call
  of the script has such a base. \<^verbatim>\<open>Math.pow(b, 0)\<close> is 1 for every \<open>b\<close>.\<close>

definition Math_pow :: "real \<Rightarrow> real \<Rightarrow> real" where
  "Math_pow b e = (if e = 0 then 1 else b powr e)"

text \<open>\<^verbatim>\<open>Math.round\<close>: the nearest integer, a tie going up.\<close>

definition Math_round :: "real \<Rightarrow> real" where
  "Math_round v = of_int \<lfloor>v + 1 / 2\<rfloor>"

definition Math_hypot :: "real \<Rightarrow> real \<Rightarrow> real" where
  "Math_hypot a b = sqrt (a * a + b * b)"

subsection \<open>Rounding to a double\<close>

text \<open>The integer nearest to \<open>t\<close>, a tie going to the even one.\<close>

definition rne :: "real \<Rightarrow> int" where
  "rne t = (let m = \<lfloor>t\<rfloor>; r = t - of_int m
            in if r < 1 / 2 then m else if r > 1 / 2 then m + 1
               else if even m then m else m + 1)"

text \<open>The exponent \<open>e\<close> of the binade \<open>[2\<^sup>e, 2\<^sup>e\<^sup>+\<^sup>1)\<close> that holds \<open>|x|\<close>.\<close>

definition binade :: "real \<Rightarrow> int" where
  "binade x = \<lfloor>log 2 \<bar>x\<bar>\<rfloor>"

text \<open>The binary64 number nearest to \<open>x\<close>, a tie going to the even significand: in
  the binade of \<open>x\<close> the doubles are the multiples of \<open>2\<^sup>e\<^sup>-\<^sup>5\<^sup>2\<close>. The range of
  the exponent is not bounded, so overflow and the subnormal numbers are outside the
  model.\<close>

definition fl64 :: "real \<Rightarrow> real" where
  "fl64 x = (if x = 0 then 0
             else let q = 2 powr (of_int (binade x) - 52) in of_int (rne (x / q)) * q)"

text \<open>\<^verbatim>\<open>const clamp = (v, min, max) => Math.max(min, Math.min(max, v))\<close>\<close>

definition clamp :: "real \<Rightarrow> real \<Rightarrow> real \<Rightarrow> real" where
  "clamp v lo hi = max lo (min hi v)"

text \<open>\<^verbatim>\<open>const lerp = (a, b, t) => a + (b - a) * t\<close>\<close>

definition lerp :: "real \<Rightarrow> real \<Rightarrow> real \<Rightarrow> real" where
  "lerp a b t = a + (b - a) * t"

definition smoothstep :: "real \<Rightarrow> real \<Rightarrow> real \<Rightarrow> real" where
  "smoothstep edge0 edge1 v =
     (let t = clamp ((v - edge0) / (edge1 - edge0)) 0 1 in t * t * (3 - 2 * t))"

subsection \<open>Gamma-correct colour mixing\<close>

definition GAMMA :: real where
  "GAMMA = 2.2"

definition toLinear :: "real \<Rightarrow> real" where
  "toLinear c = Math_pow (c / 255) GAMMA"

definition toSRGB :: "real \<Rightarrow> real" where
  "toSRGB c = Math_round (Math_pow (clamp c 0 1) (1 / GAMMA) * 255)"

text \<open>A colour is the three-element array \<^verbatim>\<open>[r, g, b]\<close>.\<close>

type_synonym colour = "real \<times> real \<times> real"

text \<open>The darkening factor of \<^verbatim>\<open>mixColorsLinear\<close>.\<close>

definition darken :: "real \<Rightarrow> real" where
  "darken t = 1 - t * (1 - t) * 0.15"

fun mixColorsLinear :: "colour \<Rightarrow> colour \<Rightarrow> real \<Rightarrow> colour" where
  "mixColorsLinear (c1r, c1g, c1b) (c2r, c2g, c2b) t =
     (let r = lerp (toLinear c1r) (toLinear c2r) t;
          g = lerp (toLinear c1g) (toLinear c2g) t;
          b = lerp (toLinear c1b) (toLinear c2b) t
      in (toSRGB (r * darken t), toSRGB (g * darken t), toSRGB (b * darken t)))"

text \<open>A colour sent through \<^verbatim>\<open>toLinear\<close> and back through \<^verbatim>\<open>toSRGB\<close>.\<close>

fun gamma_round_trip :: "colour \<Rightarrow> colour" where
  "gamma_round_trip (r, g, b) = (toSRGB (toLinear r), toSRGB (toLinear g), toSRGB (toLinear b))"

fun integer_channels :: "colour \<Rightarrow> bool" where
  "integer_channels (r, g, b) = (r \<in> \<int> \<and> g \<in> \<int> \<and> b \<in> \<int>)"

fun round_channels :: "colour \<Rightarrow> colour" where
  "round_channels (r, g, b) = (Math_round r, Math_round g, Math_round b)"

text \<open>The channels of a colour lie in \<open>[0, 255]\<close>.\<close>

fun channels_in_range :: "colour \<Rightarrow> bool" where
  "channels_in_range (r, g, b) =
     (0 \<le> r \<and> r \<le> 255 \<and> 0 \<le> g \<and> g \<le> 255 \<and> 0 \<le> b \<and> b \<le> 255)"

section \<open>Configuration\<close>

text \<open>The fields of \<^verbatim>\<open>CONFIG\<close> that the simulation reads (the others only size the
  canvas and the population or style the drawing). The functions below take the
  configuration as a parameter; \<open>CONFIG\<close> is the one the script ships.\<close>

record config =
  interactionRadius :: real
  transferRatePerSec :: real
  colorRatePerSec :: real
  energyDecayPerSec :: real
  energyFloor :: real
  baseRadiusMin :: real
  baseRadiusMax :: real
  maxFlowParticles :: nat
  flowParticleSpeed :: real
  flowSpawnRate :: real
  maxInteractionsPerFrame :: nat
  spawnPadding :: real
  maxSpeed :: real
  driftStrength :: real
  damping :: real
  lifetimeMin :: real
  lifetimeMax :: real
  spawnRatePerSec :: real

definition CONFIG :: config where
  "CONFIG = \<lparr> interactionRadius = 110, transferRatePerSec = 0.6, colorRatePerSec = 1.0,
     energyDecayPerSec = 0.018, energyFloor = 0.15, baseRadiusMin = 1.8,
     baseRadiusMax = 4.0, maxFlowParticles = 100, flowParticleSpeed = 60,
     flowSpawnRate = 0.2, maxInteractionsPerFrame = 1200, spawnPadding = 0,
     maxSpeed = 20, driftStrength = 10, damping = 0.97, lifetimeMin = 6000,
     lifetimeMax = 12000, spawnRatePerSec = 5 \<rparr>"

definition BASE_COLORS :: "colour list" where
  "BASE_COLORS = [(235, 170, 60), (210, 100, 60), (150, 110, 190)]"

section \<open>The polarity network\<close>

text \<open>\<^verbatim>\<open>TinyNN\<close>: the weight arrays have the shapes its constructor gives them
  (4 by 6, 6, 6).\<close>

record TinyNN =
  nn_w1 :: "real list list"
  nn_b1 :: "real list"
  nn_w2 :: "real list"
  nn_b2 :: real

definition forward :: "TinyNN \<Rightarrow> real list \<Rightarrow> real" where
  "forward nn inputs =
     (let hidden = map (\<lambda>j. tanh (nn_b1 nn ! j
                        + (\<Sum>i\<leftarrow>[0..<4]. inputs ! i * (nn_w1 nn ! i ! j))))
                     [0..<length (nn_b1 nn)];
          out = nn_b2 nn + (\<Sum>i\<leftarrow>[0..<6]. hidden ! i * (nn_w2 nn ! i))
      in 1 / (1 + exp (- out)))"

section \<open>Sparks and the store\<close>

text \<open>
  A \<^verbatim>\<open>Spark\<close> is a mutable object that the spark list, the grid cells, the
  connections and the flow particles all refer to. The constructor gives each object
  its \<^verbatim>\<open>id\<close> from the counter \<^verbatim>\<open>sparkIdCounter++\<close> and nothing writes the field again,
  so the id identifies the object: a reference to a spark is its id, and the store
  maps the id to the object's fields. The fields \<^verbatim>\<open>x\<close>, \<^verbatim>\<open>y\<close>, \<^verbatim>\<open>w\<close>, \<^verbatim>\<open>h\<close> are
  \<open>spark_x\<close>, \<open>spark_y\<close>, \<open>spark_w\<close>, \<open>spark_h\<close>; \<^verbatim>\<open>fade\<close> is unset until the first
  update.
\<close>

type_synonym ref = nat

record Spark =
  spark_x :: real
  spark_y :: real
  spark_w :: real
  spark_h :: real
  vx :: real
  vy :: real
  baseRadius :: real
  energy :: real
  seedFeature :: real
  color :: colour
  birth :: real
  lifetime :: real
  polarity :: real
  ringAlpha :: real
  fade :: "real option"

type_synonym store = "ref \<Rightarrow> Spark"

text \<open>The constructor, without the id. \<open>rnd\<close> is the sequence of values that
  \<^verbatim>\<open>Math.random()\<close> returns and \<open>k\<close> the number of calls made so far; \<open>now\<close> is the
  reading of \<^verbatim>\<open>performance.now()\<close>. A value of \<^verbatim>\<open>Math.random()\<close> lies in \<open>[0, 1)\<close>, so
  \<open>baseIdx\<close> is 0, 1 or 2.\<close>

definition new_Spark ::
  "config \<Rightarrow> (nat \<Rightarrow> real) \<Rightarrow> nat \<Rightarrow> real \<Rightarrow> real \<Rightarrow> real \<Rightarrow> real \<Rightarrow> real \<Rightarrow> TinyNN \<Rightarrow> Spark" where
  "new_Spark cfg rnd k now px py pw ph nn =
     (let seed = rnd (k + 4);
          baseIdx = nat \<lfloor>rnd (k + 5) * 3\<rfloor>;
          base = BASE_COLORS ! baseIdx;
          variation = 30;
          inputs = [(px / pw) * 2 - 1, (py / ph) * 2 - 1, 0, seed * 2 - 1]
      in \<lparr> spark_x = px, spark_y = py, spark_w = pw, spark_h = ph,
           vx = (rnd k - 0.5) * maxSpeed cfg * 0.5,
           vy = (rnd (k + 1) - 0.5) * maxSpeed cfg * 0.5,
           baseRadius = lerp (baseRadiusMin cfg) (baseRadiusMax cfg) (rnd (k + 2)),
           energy = 0.4 + rnd (k + 3) * 0.4,
           seedFeature = seed,
           color = (clamp (fst base + (rnd (k + 6) - 0.5) * variation) 0 255,
                    clamp (fst (snd base) + (rnd (k + 7) - 0.5) * variation) 0 255,
                    clamp (snd (snd base) + (rnd (k + 8) - 0.5) * variation) 0 255),
           birth = now,
           lifetime = lerp (lifetimeMin cfg) (lifetimeMax cfg) (rnd (k + 9)),
           polarity = forward nn inputs,
           ringAlpha = 0,
           fade = None \<rparr>)"

text \<open>\<^verbatim>\<open>Spark.update(dt, time)\<close>: the updated object and whether it is still alive.\<close>

definition Spark_update :: "config \<Rightarrow> real \<Rightarrow> real \<Rightarrow> Spark \<Rightarrow> Spark \<times> bool" where
  "Spark_update cfg dt time s =
     (let age = time - birth s;
          lifeRatio = age / lifetime s;
          noiseX = sin (time * 0.001 + seedFeature s * 10) * driftStrength cfg;
          noiseY = cos (time * 0.0012 + seedFeature s * 7) * driftStrength cfg;
          vx1 = (vx s + noiseX * dt) * Math_pow (damping cfg) (dt * 60);
          vy1 = (vy s + noiseY * dt) * Math_pow (damping cfg) (dt * 60);
          speed = Math_hypot vx1 vy1;
          vx2 = (if speed > maxSpeed cfg then (vx1 / speed) * maxSpeed cfg else vx1);
          vy2 = (if speed > maxSpeed cfg then (vy1 / speed) * maxSpeed cfg else vy1);
          x1 = spark_x s + vx2 * dt;
          y1 = spark_y s + vy2 * dt;
          x2 = (if x1 < 0 then x1 + spark_w s else x1);
          x3 = (if x2 > spark_w s then x2 - spark_w s else x2);
          y2 = (if y1 < 0 then y1 + spark_h s else y1);
          y3 = (if y2 > spark_h s then y2 - spark_h s else y2);
          e1 = energy s * Math_pow (1 - energyDecayPerSec cfg) dt;
          e2 = max (energyFloor cfg * 0.5) e1;
          fadeIn = clamp (age / 500) 0 1;
          fadeOut = (if lifeRatio > 0.75 then 1 - (lifeRatio - 0.75) / 0.25 else 1)
      in (s\<lparr> vx := vx2, vy := vy2, spark_x := x3, spark_y := y3, energy := e2,
              ringAlpha := ringAlpha s * 0.9, fade := Some (fadeIn * fadeOut) \<rparr>,
          age < lifetime s))"

section \<open>The spatial hash grid\<close>

text \<open>The cell key \<^verbatim>\<open>`${col},${row}`\<close> is the pair of the two integers. A cell holds
  references to sparks, in insertion order.\<close>

type_synonym cellkey = "int \<times> int"

record SpatialGrid =
  cellSize :: real
  cols :: int
  rows :: int
  cells :: "cellkey \<rightharpoonup> ref list"

definition new_SpatialGrid :: "real \<Rightarrow> real \<Rightarrow> real \<Rightarrow> SpatialGrid" where
  "new_SpatialGrid cs width height =
     \<lparr> cellSize = cs, cols = \<lceil>width / cs\<rceil>, rows = \<lceil>height / cs\<rceil>, cells = Map.empty \<rparr>"

definition grid_clear :: "SpatialGrid \<Rightarrow> SpatialGrid" where
  "grid_clear g = g\<lparr> cells := Map.empty \<rparr>"

definition getKey :: "SpatialGrid \<Rightarrow> real \<Rightarrow> real \<Rightarrow> cellkey" where
  "getKey g px py = (\<lfloor>px / cellSize g\<rfloor>, \<lfloor>py / cellSize g\<rfloor>)"

definition grid_insert :: "store \<Rightarrow> ref \<Rightarrow> SpatialGrid \<Rightarrow> SpatialGrid" where
  "grid_insert hp spark g =
     (let key = getKey g (spark_x (hp spark)) (spark_y (hp spark));
          cell = (case cells g key of None \<Rightarrow> [] | Some c \<Rightarrow> c)
      in g\<lparr> cells := (cells g)(key \<mapsto> cell @ [spark]) \<rparr>)"

text \<open>The cells of the 3 by 3 block are read in the order of the two loops,
  \<^verbatim>\<open>dc\<close> outside and \<^verbatim>\<open>dr\<close> inside.\<close>

definition getNeighbors :: "store \<Rightarrow> SpatialGrid \<Rightarrow> ref \<Rightarrow> ref list" where
  "getNeighbors hp g spark =
     (let col = \<lfloor>spark_x (hp spark) / cellSize g\<rfloor>;
          row = \<lfloor>spark_y (hp spark) / cellSize g\<rfloor>
      in concat (map (\<lambda>dc. concat (map (\<lambda>dr.
           (case cells g (col + dc, row + dr) of
              None \<Rightarrow> []
            | Some cell \<Rightarrow> filter (\<lambda>other. other \<noteq> spark) cell))
           [-1, 0, 1])) [-1, 0, 1]))"

section \<open>Flow particles and connections\<close>

record FlowParticle =
  fp_giver :: ref
  fp_receiver :: ref
  fp_t :: real
  fp_color :: colour
  fp_alpha :: real
  fp_size :: real

text \<open>The constructor; \<open>r\<close> is the value of its call of \<^verbatim>\<open>Math.random()\<close>.\<close>

definition new_FlowParticle :: "ref \<Rightarrow> ref \<Rightarrow> colour \<Rightarrow> real \<Rightarrow> FlowParticle" where
  "new_FlowParticle giver receiver c r =
     \<lparr> fp_giver = giver, fp_receiver = receiver, fp_t = 0, fp_color = c,
       fp_alpha = 0.8, fp_size = 1.5 + r \<rparr>"

text \<open>\<^verbatim>\<open>FlowParticle.update(dt)\<close> reads the live positions of its two sparks.\<close>

definition FlowParticle_update ::
  "config \<Rightarrow> store \<Rightarrow> real \<Rightarrow> FlowParticle \<Rightarrow> FlowParticle \<times> bool" where
  "FlowParticle_update cfg hp dt p =
     (let distance = Math_hypot (spark_x (hp (fp_receiver p)) - spark_x (hp (fp_giver p)))
                            (spark_y (hp (fp_receiver p)) - spark_y (hp (fp_giver p)));
          speed = flowParticleSpeed cfg / max distance 1;
          t1 = fp_t p + speed * dt
      in (p\<lparr> fp_t := t1, fp_alpha := 0.8 * (1 - t1) \<rparr>, t1 < 1))"

text \<open>A connection \<^verbatim>\<open>{ strength, a, b }\<close>. Its key \<^verbatim>\<open>`${a.id}-${b.id}`\<close>, smaller id
  first, is the ordered pair of the two ids.\<close>

record Connection =
  strength :: real
  conn_a :: ref
  conn_b :: ref

type_synonym connkey = "nat \<times> nat"

definition getConnectionKey :: "ref \<Rightarrow> ref \<Rightarrow> connkey" where
  "getConnectionKey a b = (if a < b then (a, b) else (b, a))"

section \<open>The spark system\<close>

text \<open>The state of a \<^verbatim>\<open>SparkSystem\<close> that the simulation uses (canvas, drawing context
  and \<^verbatim>\<open>isMobile\<close> belong to the rendering), with the store of the spark objects, the
  module's \<^verbatim>\<open>sparkIdCounter\<close> and the number \<open>rng\<close> of calls of \<^verbatim>\<open>Math.random()\<close>
  made so far.\<close>

record SparkSystem =
  sparks :: "ref list"
  heap :: store
  flowParticles :: "FlowParticle list"
  connections :: "connkey \<rightharpoonup> Connection"
  nn :: TinyNN
  grid :: SpatialGrid
  lastTime :: real
  spawnAccumulator :: real
  width :: real
  height :: real
  sparkCount :: nat
  sparkIdCounter :: nat
  rng :: nat

text \<open>\<^verbatim>\<open>spawnSpark()\<close>. \<open>now k\<close> is the reading of \<^verbatim>\<open>performance.now()\<close> in the
  constructor of the spark with id \<open>k\<close>.\<close>

definition spawnSpark ::
  "config \<Rightarrow> (nat \<Rightarrow> real) \<Rightarrow> (nat \<Rightarrow> real) \<Rightarrow> SparkSystem \<Rightarrow> SparkSystem" where
  "spawnSpark cfg rnd now st =
     (if length (sparks st) \<ge> sparkCount st then st
      else
        let pad = spawnPadding cfg;
            k = rng st;
            px = width st * (pad + rnd k * (1 - 2 * pad));
            py = height st * (pad + rnd (k + 1) * (1 - 2 * pad));
            new_id = sparkIdCounter st;
            s = new_Spark cfg rnd (k + 2) (now new_id) px py (width st) (height st) (nn st)
        in st\<lparr> sparks := sparks st @ [new_id], heap := (heap st)(new_id := s),
                sparkIdCounter := new_id + 1, rng := k + 12 \<rparr>)"

subsection \<open>Resolving one pair\<close>

text \<open>What \<^verbatim>\<open>processInteractions\<close> mutates while it runs: the spark objects, the
  connection ledger, the flow particles and the random sequence, and its three locals
  \<^verbatim>\<open>interactions\<close>, \<^verbatim>\<open>processed\<close> and \<^verbatim>\<open>activeConnections\<close>.\<close>

record frame =
  f_heap :: store
  f_connections :: "connkey \<rightharpoonup> Connection"
  f_flowParticles :: "FlowParticle list"
  f_rng :: nat
  interactions :: nat
  processed :: "connkey set"
  activeConnections :: "connkey set"

definition fadeSpeed :: real where
  "fadeSpeed = 3.0"

text \<open>Line 448 and 449: the strength after one smoothing step.\<close>

definition track_strength :: "real \<Rightarrow> real \<Rightarrow> real \<Rightarrow> real" where
  "track_strength s targetW dt = clamp (s + (targetW - s) * fadeSpeed * dt) 0 1"

text \<open>Lines 454 and 455.\<close>

definition giver_of :: "store \<Rightarrow> ref \<Rightarrow> ref \<Rightarrow> ref" where
  "giver_of hp spark other = (if polarity (hp spark) > polarity (hp other) then spark else other)"

definition receiver_of :: "store \<Rightarrow> ref \<Rightarrow> ref \<Rightarrow> ref" where
  "receiver_of hp spark other = (if polarity (hp spark) > polarity (hp other) then other else spark)"

text \<open>Lines 459 to 463: the energy transfer.\<close>

definition deltaEnergy :: "config \<Rightarrow> real \<Rightarrow> real \<Rightarrow> real \<Rightarrow> real" where
  "deltaEnergy cfg dt w giver_energy =
     (let transfer = clamp (w * transferRatePerSec cfg * dt) 0 1
      in transfer * max 0 (giver_energy - energyFloor cfg))"

definition transfer_energy :: "config \<Rightarrow> real \<Rightarrow> real \<Rightarrow> ref \<Rightarrow> ref \<Rightarrow> store \<Rightarrow> store" where
  "transfer_energy cfg dt w giver receiver hp =
     (let d = deltaEnergy cfg dt w (energy (hp giver));
          hp1 = hp(giver := (hp giver)\<lparr> energy := energy (hp giver) - d \<rparr>)
      in hp1(receiver := (hp1 receiver)\<lparr> energy := min 1 (energy (hp1 receiver) + d) \<rparr>))"

text \<open>Line 466: the giver's ring.\<close>

definition ring_feedback :: "real \<Rightarrow> ref \<Rightarrow> store \<Rightarrow> store" where
  "ring_feedback w giver hp =
     hp(giver := (hp giver)\<lparr> ringAlpha := max (ringAlpha (hp giver)) (w * 0.5) \<rparr>)"

text \<open>Lines 469 to 472: the colour contamination, receiver first.\<close>

definition contaminate :: "config \<Rightarrow> real \<Rightarrow> real \<Rightarrow> ref \<Rightarrow> ref \<Rightarrow> store \<Rightarrow> store" where
  "contaminate cfg dt w giver receiver hp =
     (let colorT = clamp (w * w * colorRatePerSec cfg * dt) 0 0.2;
          hp1 = hp(receiver := (hp receiver)
                  \<lparr> color := mixColorsLinear (color (hp receiver)) (color (hp giver)) colorT \<rparr>)
      in hp1(giver := (hp1 giver)
               \<lparr> color := mixColorsLinear (color (hp1 giver)) (color (hp1 receiver))
                            (colorT * 0.25) \<rparr>))"

text \<open>Lines 475 to 480: a flow particle is spawned at random.\<close>

definition spawn_flow ::
  "config \<Rightarrow> (nat \<Rightarrow> real) \<Rightarrow> real \<Rightarrow> real \<Rightarrow> ref \<Rightarrow> ref \<Rightarrow> frame \<Rightarrow> frame" where
  "spawn_flow cfg rnd dt w giver receiver fr =
     (if w > 0.2 \<and> length (f_flowParticles fr) < maxFlowParticles cfg then
        if rnd (f_rng fr) < w * flowSpawnRate cfg * dt * 60 then
          let mixedColor = mixColorsLinear (color (f_heap fr giver))
                             (color (f_heap fr receiver)) 0.3;
              p = new_FlowParticle giver receiver mixedColor (rnd (f_rng fr + 1))
          in fr\<lparr> f_flowParticles := f_flowParticles fr @ [p], f_rng := f_rng fr + 2 \<rparr>
        else fr\<lparr> f_rng := f_rng fr + 1 \<rparr>
      else fr)"

text \<open>The block under \<^verbatim>\<open>if (w > 0.1)\<close>.\<close>

definition exchange ::
  "config \<Rightarrow> (nat \<Rightarrow> real) \<Rightarrow> real \<Rightarrow> real \<Rightarrow> ref \<Rightarrow> ref \<Rightarrow> frame \<Rightarrow> frame" where
  "exchange cfg rnd dt w giver receiver fr =
     (let hp1 = transfer_energy cfg dt w giver receiver (f_heap fr);
          hp2 = ring_feedback w giver hp1;
          hp3 = contaminate cfg dt w giver receiver hp2
      in spawn_flow cfg rnd dt w giver receiver (fr\<lparr> f_heap := hp3 \<rparr>))"

text \<open>The block under \<^verbatim>\<open>if (dist < CONFIG.interactionRadius && dist > 0)\<close>: the pair
  is resolved.\<close>

definition resolve ::
  "config \<Rightarrow> (nat \<Rightarrow> real) \<Rightarrow> real \<Rightarrow> ref \<Rightarrow> ref \<Rightarrow> connkey \<Rightarrow> real \<Rightarrow> frame \<Rightarrow> frame" where
  "resolve cfg rnd dt spark other connKey distance fr =
     (let fr1 = fr\<lparr> interactions := interactions fr + 1,
                    activeConnections := insert connKey (activeConnections fr) \<rparr>;
          targetW = smoothstep (interactionRadius cfg) 0 distance;
          conn0 = (case f_connections fr1 connKey of
                     None \<Rightarrow> \<lparr> strength = 0, conn_a = spark, conn_b = other \<rparr>
                   | Some c \<Rightarrow> c);
          conn1 = conn0\<lparr> conn_a := spark, conn_b := other \<rparr>;
          conn2 = conn1\<lparr> strength := track_strength (strength conn1) targetW dt \<rparr>;
          fr2 = fr1\<lparr> f_connections := (f_connections fr1)(connKey \<mapsto> conn2) \<rparr>;
          w = strength conn2;
          giver = giver_of (f_heap fr2) spark other;
          receiver = receiver_of (f_heap fr2) spark other
      in if w > 0.1 then exchange cfg rnd dt w giver receiver fr2 else fr2)"

text \<open>The body of the loop over the neighbours.\<close>

definition interact ::
  "config \<Rightarrow> (nat \<Rightarrow> real) \<Rightarrow> real \<Rightarrow> ref \<Rightarrow> ref \<Rightarrow> frame \<Rightarrow> frame" where
  "interact cfg rnd dt spark other fr =
     (let connKey = getConnectionKey spark other
      in if connKey \<in> processed fr then fr
         else
           let fr1 = fr\<lparr> processed := insert connKey (processed fr) \<rparr>;
               dx = spark_x (f_heap fr1 other) - spark_x (f_heap fr1 spark);
               dy = spark_y (f_heap fr1 other) - spark_y (f_heap fr1 spark);
               distance = Math_hypot dx dy
           in if distance < interactionRadius cfg \<and> distance > 0
              then resolve cfg rnd dt spark other connKey distance fr1 else fr1)"

subsection \<open>The interaction pass\<close>

fun neighbor_loop ::
  "config \<Rightarrow> (nat \<Rightarrow> real) \<Rightarrow> real \<Rightarrow> ref \<Rightarrow> ref list \<Rightarrow> frame \<Rightarrow> frame" where
  "neighbor_loop cfg rnd dt spark [] fr = fr"
| "neighbor_loop cfg rnd dt spark (other # neighbors) fr =
     neighbor_loop cfg rnd dt spark neighbors (interact cfg rnd dt spark other fr)"

text \<open>The loop over the sparks; the cap is tested once for each spark, before its
  neighbours are fetched.\<close>

fun spark_loop ::
  "config \<Rightarrow> (nat \<Rightarrow> real) \<Rightarrow> real \<Rightarrow> SpatialGrid \<Rightarrow> ref list \<Rightarrow> frame \<Rightarrow> frame" where
  "spark_loop cfg rnd dt g [] fr = fr"
| "spark_loop cfg rnd dt g (spark # rest) fr =
     (if interactions fr \<ge> maxInteractionsPerFrame cfg then fr
      else spark_loop cfg rnd dt g rest
             (neighbor_loop cfg rnd dt spark (getNeighbors (f_heap fr) g spark) fr))"

text \<open>Lines 487 to 494: connections that were not active fade out and are deleted.
  \<^verbatim>\<open>conn.strength -= 4.0 * dt\<close> is a product and a difference of doubles, each
  rounded to a double. The \<^verbatim>\<open>dt\<close> of the script is a double already; the \<open>dt\<close> of
  the model is the exact quotient, so it enters as the double nearest to it.\<close>

definition fade_out ::
  "real \<Rightarrow> connkey set \<Rightarrow> (connkey \<rightharpoonup> Connection) \<Rightarrow> (connkey \<rightharpoonup> Connection)" where
  "fade_out dt active conns =
     (\<lambda>key. case conns key of
        None \<Rightarrow> None
      | Some conn \<Rightarrow>
          if key \<notin> active then
            (let conn1 = conn\<lparr> strength := fl64 (strength conn - fl64 (4.0 * fl64 dt)) \<rparr>
             in if strength conn1 \<le> 0 then None else Some conn1)
          else Some conn)"

definition rebuild_grid :: "store \<Rightarrow> ref list \<Rightarrow> SpatialGrid \<Rightarrow> SpatialGrid" where
  "rebuild_grid hp ss g = fold (grid_insert hp) ss (grid_clear g)"

definition start_frame :: "SparkSystem \<Rightarrow> frame" where
  "start_frame st =
     \<lparr> f_heap = heap st, f_connections = connections st,
       f_flowParticles = flowParticles st, f_rng = rng st,
       interactions = 0, processed = {}, activeConnections = {} \<rparr>"

text \<open>The two loops of the pass, from the rebuilt grid to the frame they leave.\<close>

definition run_pass :: "config \<Rightarrow> (nat \<Rightarrow> real) \<Rightarrow> real \<Rightarrow> SparkSystem \<Rightarrow> frame" where
  "run_pass cfg rnd dt st =
     spark_loop cfg rnd dt (rebuild_grid (heap st) (sparks st) (grid st)) (sparks st)
       (start_frame st)"

definition processInteractions ::
  "config \<Rightarrow> (nat \<Rightarrow> real) \<Rightarrow> real \<Rightarrow> SparkSystem \<Rightarrow> SparkSystem" where
  "processInteractions cfg rnd dt st =
     (let g = rebuild_grid (heap st) (sparks st) (grid st);
          fr = run_pass cfg rnd dt st
      in st\<lparr> grid := g, heap := f_heap fr,
              connections := fade_out dt (activeConnections fr) (f_connections fr),
              flowParticles := f_flowParticles fr, rng := f_rng fr \<rparr>)"

subsection \<open>One frame\<close>

text \<open>\<^verbatim>\<open>while (this.spawnAccumulator >= 1) { this.spawnSpark(); this.spawnAccumulator--; }\<close>\<close>

function spawn_loop ::
  "config \<Rightarrow> (nat \<Rightarrow> real) \<Rightarrow> (nat \<Rightarrow> real) \<Rightarrow> SparkSystem \<Rightarrow> SparkSystem" where
  "spawn_loop cfg rnd now st =
     (if spawnAccumulator st \<ge> 1 then
        (let st1 = spawnSpark cfg rnd now st
         in spawn_loop cfg rnd now (st1\<lparr> spawnAccumulator := spawnAccumulator st1 - 1 \<rparr>))
      else st)"
  by pat_completeness auto
termination
proof (relation "measure (\<lambda>(cfg, rnd, now, st). nat \<lfloor>spawnAccumulator st\<rfloor>)")
  show "wf (measure (\<lambda>(cfg, rnd, now, st). nat \<lfloor>spawnAccumulator st\<rfloor>))"
    by simp
next
  fix cfg :: config and rnd now :: "nat \<Rightarrow> real" and st st1 :: SparkSystem
  assume ge: "1 \<le> spawnAccumulator st" and st1: "st1 = spawnSpark cfg rnd now st"
  have "\<lfloor>spawnAccumulator st - 1\<rfloor> = \<lfloor>spawnAccumulator st\<rfloor> - 1"
    by linarith
  moreover have "1 \<le> \<lfloor>spawnAccumulator st\<rfloor>"
    using ge by linarith
  moreover have "spawnAccumulator st1 = spawnAccumulator st"
    by (simp add: st1 spawnSpark_def Let_def)
  ultimately show
    "((cfg, rnd, now, st1\<lparr> spawnAccumulator := spawnAccumulator st1 - 1 \<rparr>), (cfg, rnd, now, st))
       \<in> measure (\<lambda>(cfg, rnd, now, st). nat \<lfloor>spawnAccumulator st\<rfloor>)"
    by simp
qed

declare spawn_loop.simps [simp del]

text \<open>\<^verbatim>\<open>this.sparks.filter(s => { const alive = s.update(dt, time); ... })\<close>: every
  spark is updated in place, the live ones are kept in order.\<close>

fun update_sparks :: "config \<Rightarrow> real \<Rightarrow> real \<Rightarrow> ref list \<Rightarrow> store \<Rightarrow> ref list \<times> store" where
  "update_sparks cfg dt time [] hp = ([], hp)"
| "update_sparks cfg dt time (s # ss) hp =
     (let (s1, alive) = Spark_update cfg dt time (hp s);
          (rest, hp1) = update_sparks cfg dt time ss (hp(s := s1))
      in (if alive then s # rest else rest, hp1))"

text \<open>Lines 517 to 521: connections of dead sparks are deleted.\<close>

definition purge_dead ::
  "ref set \<Rightarrow> (connkey \<rightharpoonup> Connection) \<Rightarrow> (connkey \<rightharpoonup> Connection)" where
  "purge_dead aliveIds conns =
     (\<lambda>key. case conns key of
        None \<Rightarrow> None
      | Some conn \<Rightarrow>
          if conn_a conn \<notin> aliveIds \<or> conn_b conn \<notin> aliveIds then None else Some conn)"

definition update_flow ::
  "config \<Rightarrow> store \<Rightarrow> real \<Rightarrow> FlowParticle list \<Rightarrow> FlowParticle list" where
  "update_flow cfg hp dt ps = map fst (filter snd (map (FlowParticle_update cfg hp dt) ps))"

text \<open>\<^verbatim>\<open>SparkSystem.update(time)\<close>.\<close>

definition frame_dt :: "real \<Rightarrow> SparkSystem \<Rightarrow> real" where
  "frame_dt time st = min ((time - lastTime st) / 1000) 0.1"

definition SparkSystem_update ::
  "config \<Rightarrow> (nat \<Rightarrow> real) \<Rightarrow> (nat \<Rightarrow> real) \<Rightarrow> real \<Rightarrow> SparkSystem \<Rightarrow> SparkSystem" where
  "SparkSystem_update cfg rnd now time st =
     (let dt = frame_dt time st;
          st1 = st\<lparr> lastTime := time \<rparr>;
          st2 = st1\<lparr> spawnAccumulator := spawnAccumulator st1 + spawnRatePerSec cfg * dt \<rparr>;
          st3 = spawn_loop cfg rnd now st2;
          (alive, hp) = update_sparks cfg dt time (sparks st3) (heap st3);
          st4 = st3\<lparr> sparks := alive, heap := hp \<rparr>;
          st5 = st4\<lparr> connections := purge_dead (set alive) (connections st4) \<rparr>;
          st6 = processInteractions cfg rnd dt st5
      in st6\<lparr> flowParticles := update_flow cfg (heap st6) dt (flowParticles st6) \<rparr>)"

section \<open>Notions used in the properties\<close>

subsection \<open>The phases of a frame and runs of frames\<close>

text \<open>The state of \<^verbatim>\<open>SparkSystem.update(time)\<close> after its spawn loop, and after the
  sparks were updated and the connections of dead sparks deleted.\<close>

definition spawn_phase ::
  "config \<Rightarrow> (nat \<Rightarrow> real) \<Rightarrow> (nat \<Rightarrow> real) \<Rightarrow> real \<Rightarrow> SparkSystem \<Rightarrow> SparkSystem" where
  "spawn_phase cfg rnd now time st =
     spawn_loop cfg rnd now
       (st\<lparr> lastTime := time,
             spawnAccumulator := spawnAccumulator st + spawnRatePerSec cfg * frame_dt time st \<rparr>)"

definition cull_phase ::
  "config \<Rightarrow> (nat \<Rightarrow> real) \<Rightarrow> (nat \<Rightarrow> real) \<Rightarrow> real \<Rightarrow> SparkSystem \<Rightarrow> SparkSystem" where
  "cull_phase cfg rnd now time st =
     (let st3 = spawn_phase cfg rnd now time st;
          res = update_sparks cfg (frame_dt time st) time (sparks st3) (heap st3)
      in st3\<lparr> sparks := fst res, heap := snd res,
               connections := purge_dead (set (fst res)) (connections st3) \<rparr>)"

text \<open>A run of frames with the given timestamps, and the simulated time it
  accumulates: the sum of the capped \<^verbatim>\<open>dt\<close> of its frames, \<open>t0\<close> being the
  \<^verbatim>\<open>lastTime\<close> at the start.\<close>

definition run_frames ::
  "config \<Rightarrow> (nat \<Rightarrow> real) \<Rightarrow> (nat \<Rightarrow> real) \<Rightarrow> real list \<Rightarrow> SparkSystem \<Rightarrow> SparkSystem" where
  "run_frames cfg rnd now stamps st = fold (SparkSystem_update cfg rnd now) stamps st"

fun simulated_time :: "real \<Rightarrow> real list \<Rightarrow> real" where
  "simulated_time t0 [] = 0"
| "simulated_time t0 (t # ts) = min ((t - t0) / 1000) 0.1 + simulated_time t ts"

subsection \<open>Connections and energy\<close>

text \<open>The strength of the connection under a key, a missing connection counting as
  the strength 0 with which \<^verbatim>\<open>processInteractions\<close> creates it.\<close>

definition strength_at :: "(connkey \<rightharpoonup> Connection) \<Rightarrow> connkey \<Rightarrow> real" where
  "strength_at conns key = (case conns key of None \<Rightarrow> 0 | Some c \<Rightarrow> strength c)"

text \<open>The strength that \<^verbatim>\<open>conn.strength -= 4.0 * dt\<close> leaves of the strength \<open>s\<close>.\<close>

definition fading :: "real \<Rightarrow> real \<Rightarrow> real" where
  "fading dt s = fl64 (s - fl64 (4.0 * fl64 dt))"

text \<open>The spark \<open>x\<close> is in the spark list and does not expire up to the time \<open>T\<close>.\<close>

definition anchored :: "SparkSystem \<Rightarrow> real \<Rightarrow> ref \<Rightarrow> bool" where
  "anchored st T x \<longleftrightarrow>
     x \<in> set (sparks st) \<and> x < sparkIdCounter st \<and> T - birth (heap st x) < lifetime (heap st x)"

text \<open>Every connection of the ledger refers to sparks of the set \<open>S\<close> only.\<close>

definition refs_within :: "ref set \<Rightarrow> (connkey \<rightharpoonup> Connection) \<Rightarrow> bool" where
  "refs_within S conns \<longleftrightarrow> (\<forall>key c. conns key = Some c \<longrightarrow> conn_a c \<in> S \<and> conn_b c \<in> S)"

text \<open>The energy bounds of a spark, and of every spark of the system.\<close>

definition energy_ok :: "config \<Rightarrow> Spark \<Rightarrow> bool" where
  "energy_ok cfg s \<longleftrightarrow> energyFloor cfg * 0.5 \<le> energy s \<and> energy s \<le> 1"

definition energy_inv :: "config \<Rightarrow> SparkSystem \<Rightarrow> bool" where
  "energy_inv cfg st \<longleftrightarrow> (\<forall>r \<in> set (sparks st). energy_ok cfg (heap st r))"

text \<open>A property of the store that none of the three store updates of a resolved
  pair (energy transfer, ring feedback, colour contamination) destroys.\<close>

definition pair_stable :: "config \<Rightarrow> real \<Rightarrow> (store \<Rightarrow> bool) \<Rightarrow> bool" where
  "pair_stable cfg dt Q \<longleftrightarrow>
     (\<forall>w g r hp. Q hp \<longrightarrow> Q (transfer_energy cfg dt w g r hp))
     \<and> (\<forall>w g hp. Q hp \<longrightarrow> Q (ring_feedback w g hp))
     \<and> (\<forall>w g r hp. Q hp \<longrightarrow> Q (contaminate cfg dt w g r hp))"

subsection \<open>Position and velocity of an updated spark\<close>

text \<open>Lines 295 to 298 on one coordinate: the wrap around the torus.\<close>

definition torus_wrap :: "real \<Rightarrow> real \<Rightarrow> real" where
  "torus_wrap p W = (let p1 = (if p < 0 then p + W else p) in if p1 > W then p1 - W else p1)"

text \<open>A spark lies in the closed box of the viewport size it was created with, and
  the box has room for the longest step of a frame: \<^verbatim>\<open>dt\<close> is at most 0.1 and the
  speed at most \<^verbatim>\<open>maxSpeed\<close>.\<close>

definition in_box :: "Spark \<Rightarrow> bool" where
  "in_box s \<longleftrightarrow>
     0 \<le> spark_x s \<and> spark_x s \<le> spark_w s \<and> 0 \<le> spark_y s \<and> spark_y s \<le> spark_h s"

definition step_fits :: "config \<Rightarrow> Spark \<Rightarrow> bool" where
  "step_fits cfg s \<longleftrightarrow> maxSpeed cfg * 0.1 \<le> spark_w s \<and> maxSpeed cfg * 0.1 \<le> spark_h s"

text \<open>Both hold of every spark of the system.\<close>

definition box_inv :: "config \<Rightarrow> SparkSystem \<Rightarrow> bool" where
  "box_inv cfg st \<longleftrightarrow>
     (\<forall>r \<in> set (sparks st). in_box (heap st r) \<and> step_fits cfg (heap st r))"

text \<open>Lines 273 to 288: the velocity after drift, damping and the speed clamp.\<close>

definition next_velocity :: "config \<Rightarrow> real \<Rightarrow> real \<Rightarrow> Spark \<Rightarrow> real \<times> real" where
  "next_velocity cfg dt time s =
     (let vx1 = (vx s + sin (time * 0.001 + seedFeature s * 10) * driftStrength cfg * dt)
                  * Math_pow (damping cfg) (dt * 60);
          vy1 = (vy s + cos (time * 0.0012 + seedFeature s * 7) * driftStrength cfg * dt)
                  * Math_pow (damping cfg) (dt * 60);
          speed = Math_hypot vx1 vy1
      in (if speed > maxSpeed cfg then (vx1 / speed) * maxSpeed cfg else vx1,
          if speed > maxSpeed cfg then (vy1 / speed) * maxSpeed cfg else vy1))"

subsection \<open>Cells of the rebuilt grid\<close>

text \<open>The cell a spark is inserted into.\<close>

definition cell_of :: "store \<Rightarrow> SpatialGrid \<Rightarrow> ref \<Rightarrow> cellkey" where
  "cell_of hp g s = getKey g (spark_x (hp s)) (spark_y (hp s))"

text \<open>The sparks of one cell of the rebuilt grid, without the querying spark.\<close>

definition cell_neighbors :: "store \<Rightarrow> SpatialGrid \<Rightarrow> ref list \<Rightarrow> ref \<Rightarrow> cellkey \<Rightarrow> ref list" where
  "cell_neighbors hp g ss p k = filter (\<lambda>other. other \<noteq> p) (filter (\<lambda>s. cell_of hp g s = k) ss)"

text \<open>The keys of the 3 by 3 block around a cell, in the order \<^verbatim>\<open>getNeighbors\<close> reads
  them.\<close>

definition block_keys :: "int \<Rightarrow> int \<Rightarrow> cellkey list" where
  "block_keys col row =
     [(col + - 1, row + - 1), (col + - 1, row + 0), (col + - 1, row + 1),
      (col + 0, row + - 1), (col + 0, row + 0), (col + 0, row + 1),
      (col + 1, row + - 1), (col + 1, row + 0), (col + 1, row + 1)]"

subsection \<open>An example population\<close>

text \<open>Three sparks on a 1920 by 1080 viewport: spark 0 with polarity 0.8, and sparks 1
  and 2 half an interaction radius away from it, with lower polarity.\<close>

definition spark0 :: Spark where
  "spark0 = \<lparr> spark_x = 100, spark_y = 100, spark_w = 1920, spark_h = 1080, vx = 0, vy = 0,
     baseRadius = 2, energy = 0.8, seedFeature = 0, color = (235, 170, 60), birth = 0,
     lifetime = 6000, polarity = 0.8, ringAlpha = 0, fade = Some 1 \<rparr>"

definition spark1 :: Spark where
  "spark1 = spark0\<lparr> spark_x := 155, energy := 0.999, polarity := 0.3,
     color := (210, 100, 60), lifetime := 12000 \<rparr>"

definition spark2 :: Spark where
  "spark2 = spark0\<lparr> spark_y := 155, energy := 0.5, polarity := 0.5,
     color := (150, 110, 190), lifetime := 12000 \<rparr>"

definition example_store :: store where
  "example_store = (\<lambda>_. spark0)(1 := spark1, 2 := spark2)"

text \<open>The frame at the start of an interaction pass over the example population, and
  a system holding it.\<close>

definition example_frame :: frame where
  "example_frame = \<lparr> f_heap = example_store, f_connections = Map.empty,
     f_flowParticles = [], f_rng = 0, interactions = 0, processed = {},
     activeConnections = {} \<rparr>"

definition example_nn :: TinyNN where
  "example_nn = \<lparr> nn_w1 = replicate 4 (replicate 6 0), nn_b1 = replicate 6 0,
     nn_w2 = replicate 6 0, nn_b2 = 0 \<rparr>"

definition example_system :: SparkSystem where
  "example_system = \<lparr> sparks = [0, 1, 2], heap = example_store, flowParticles = [],
     connections = Map.empty, nn = example_nn, grid = new_SpatialGrid 110 1920 1080,
     lastTime = 0, spawnAccumulator = 0, width = 1920, height = 1080, sparkCount = 120,
     sparkIdCounter = 3, rng = 0 \<rparr>"

text \<open>The example system with a connection of full strength between sparks 0 and 1.\<close>

definition example_connected :: SparkSystem where
  "example_connected = example_system
     \<lparr> connections := [(0, 1) \<mapsto> \<lparr> strength = 1, conn_a = 0, conn_b = 1 \<rparr>] \<rparr>"

text \<open>The example system just before spark 0 expires, with a fresh flow particle
  from spark 0 to spark 1.\<close>

definition example_flowing :: SparkSystem where
  "example_flowing = example_system
     \<lparr> lastTime := 6000, flowParticles := [new_FlowParticle 0 1 (235, 170, 60) 0.5] \<rparr>"

text \<open>The example viewport before its first spark, at the frame of time 1000;
  values of \<^verbatim>\<open>Math.random()\<close> for the first spark; and the system after
  \<^verbatim>\<open>spawnSpark()\<close> has made that spark from them: at
  \<open>x = 1920 \<cdot> 30719/30720 = 1919.9375\<close> and \<open>y = 540\<close>, with the velocity
  \<open>((86/97 - 0.5) \<cdot> 10, 0) = (375/97, 0)\<close> and a \<open>seedFeature\<close> of about 0.2125 for
  which the horizontal drift vanishes at the time \<open>3050/3\<close> of the next frame.\<close>

definition empty_system :: SparkSystem where
  "empty_system = example_system\<lparr> sparks := [], sparkIdCounter := 0, lastTime := 1000 \<rparr>"

definition rnd_edge :: "nat \<Rightarrow> real" where
  "rnd_edge k = (if k = 0 then 30719 / 30720 else if k = 2 then 86 / 97
                 else if k = 6 then (pi - 61 / 60) / 10 else 1 / 2)"

definition edge_system :: SparkSystem where
  "edge_system = spawnSpark CONFIG rnd_edge (\<lambda>_. 1000) empty_system"

text \<open>The example system with spark 0 a tenth of a pixel from the left edge and
  moving to the left.\<close>

definition wrap_spark :: Spark where
  "wrap_spark = spark0\<lparr> spark_x := 0.1, vx := - 4 \<rparr>"

definition wrap_system :: SparkSystem where
  "wrap_system = example_system\<lparr> heap := example_store(0 := wrap_spark) \<rparr>"

text \<open>The shipped configuration with the interaction cap set to 0, and set to 1.\<close>

definition no_interactions :: config where
  "no_interactions = CONFIG\<lparr> maxInteractionsPerFrame := 0 \<rparr>"

definition cap_one :: config where
  "cap_one = CONFIG\<lparr> maxInteractionsPerFrame := 1 \<rparr>"

section \<open>Properties\<close>

subsection \<open>Arithmetic of the utility functions\<close>

lemma toSRGB_toLinear:
  assumes "0 \<le> c" "c \<le> 255"
  shows "toSRGB (toLinear c) = Math_round c"
proof (cases "c = 0")
  case True
  then show ?thesis
    by (simp add: toSRGB_def toLinear_def Math_pow_def GAMMA_def clamp_def)
next
  case False
  with assms have pos: "0 < c / 255" and le: "c / 255 \<le> 1" by simp_all
  have p0: "0 \<le> (c / 255) powr GAMMA" by simp
  have p1: "(c / 255) powr GAMMA \<le> 1"
    using pos le by (intro powr_le1) (simp_all add: GAMMA_def)
  have "clamp ((c / 255) powr GAMMA) 0 1 = (c / 255) powr GAMMA"
    using p0 p1 by (simp add: clamp_def)
  moreover have "((c / 255) powr GAMMA) powr (1 / GAMMA) = c / 255"
    using pos by (simp add: powr_powr GAMMA_def)
  ultimately show ?thesis
    by (simp add: toSRGB_def toLinear_def Math_pow_def GAMMA_def)
qed

lemma clamp_range: "lo \<le> hi \<Longrightarrow> lo \<le> clamp v lo hi \<and> clamp v lo hi \<le> hi"
  by (simp add: clamp_def)

lemma Math_round_int: "v \<in> \<int> \<Longrightarrow> Math_round v = v"
  by (auto simp: Math_round_def Ints_def)


subsection \<open>Colour mixing at the end points\<close>

lemma mix_at_0: "mixColorsLinear c1 c2 0 = gamma_round_trip c1"
  by (cases c1; cases c2) (simp add: lerp_def darken_def)

lemma mix_at_1: "mixColorsLinear c1 c2 1 = gamma_round_trip c2"
  by (cases c1; cases c2) (simp add: lerp_def darken_def)

lemma gamma_round_trip_round:
  "channels_in_range c \<Longrightarrow> gamma_round_trip c = round_channels c"
  by (cases c) (simp add: toSRGB_toLinear)

text \<open>
  Claim C7, as the code has it. \<^verbatim>\<open>toSRGB\<close> rounds, so for colours with channels in
  \<open>[0, 255]\<close> the mix at \<open>t = 0\<close> is \<open>c1\<close> with every channel rounded to the nearest
  integer: it is \<open>c1\<close> itself when the channels of \<open>c1\<close> are integers. At \<open>t = 1\<close> the
  darkening factor is 1 and the mix is the gamma round trip of \<open>c2\<close>, which is \<open>c2\<close>
  rounded.
\<close>

theorem C7_mix_end_points:
  assumes "channels_in_range c1" and "channels_in_range c2"
  shows "mixColorsLinear c1 c2 0 = round_channels c1
       \<and> (integer_channels c1 \<longrightarrow> mixColorsLinear c1 c2 0 = c1)
       \<and> darken 1 = 1
       \<and> mixColorsLinear c1 c2 1 = gamma_round_trip c2
       \<and> gamma_round_trip c2 = round_channels c2"
proof -
  have "integer_channels c1 \<longrightarrow> round_channels c1 = c1"
    by (cases c1) (simp add: Math_round_int)
  then show ?thesis
    using assms by (simp add: mix_at_0 mix_at_1 gamma_round_trip_round darken_def)
qed

theorem C7_mix_end_points_witness:
  "channels_in_range (235, 170, 60) \<and> channels_in_range (210, 100, 60)
   \<and> integer_channels (235, 170, 60)
   \<and> mixColorsLinear (235, 170, 60) (210, 100, 60) 0 = (235, 170, 60)
   \<and> mixColorsLinear (235, 170, 60) (210, 100, 60) 1 = round_channels (210, 100, 60)"
proof -
  have a: "channels_in_range (235, 170, 60)" and b: "channels_in_range (210, 100, 60)"
    and i: "integer_channels (235, 170, 60)"
    by simp_all
  note t = C7_mix_end_points [OF a b]
  from t i have "mixColorsLinear (235, 170, 60) (210, 100, 60) 0 = (235, 170, 60)"
    by blast
  moreover from t
  have "mixColorsLinear (235, 170, 60) (210, 100, 60) 1 = round_channels (210, 100, 60)"
    by metis
  ultimately show ?thesis
    using a b i by blast
qed

text \<open>
  Claim C7 as stated fails: a colour whose channels lie in \<open>[0, 255]\<close> but are not
  integers, as the colour a spark is constructed with, does not come back from the
  mix at \<open>t = 0\<close>.
\<close>

theorem C7_mix_at_0_not_exact:
  "channels_in_range (235.4, 170, 60) \<and> channels_in_range (210, 100, 60)
   \<and> mixColorsLinear (235.4, 170, 60) (210, 100, 60) 0 = (235, 170, 60)
   \<and> mixColorsLinear (235.4, 170, 60) (210, 100, 60) 0 \<noteq> (235.4, 170, 60)"
proof -
  have "mixColorsLinear (235.4, 170, 60) (210, 100, 60) 0 = round_channels (235.4, 170, 60)"
    by (simp add: mix_at_0 toSRGB_toLinear)
  moreover have "Math_round 235.4 = 235" "Math_round 170 = 170" "Math_round 60 = 60"
    by (simp_all add: Math_round_def)
  ultimately show ?thesis by simp
qed

subsection \<open>What the steps of a resolved pair leave unchanged\<close>

lemma spawn_flow_frame [simp]:
  "f_heap (spawn_flow cfg rnd dt w g r fr) = f_heap fr"
  "f_connections (spawn_flow cfg rnd dt w g r fr) = f_connections fr"
  "interactions (spawn_flow cfg rnd dt w g r fr) = interactions fr"
  "processed (spawn_flow cfg rnd dt w g r fr) = processed fr"
  "activeConnections (spawn_flow cfg rnd dt w g r fr) = activeConnections fr"
  by (simp_all add: spawn_flow_def Let_def)

lemma exchange_frame [simp]:
  "f_connections (exchange cfg rnd dt w g r fr) = f_connections fr"
  "interactions (exchange cfg rnd dt w g r fr) = interactions fr"
  "processed (exchange cfg rnd dt w g r fr) = processed fr"
  "activeConnections (exchange cfg rnd dt w g r fr) = activeConnections fr"
  by (simp_all add: exchange_def Let_def)

lemma exchange_heap:
  "f_heap (exchange cfg rnd dt w g r fr) =
     contaminate cfg dt w g r (ring_feedback w g (transfer_energy cfg dt w g r (f_heap fr)))"
  by (simp add: exchange_def Let_def)

lemma resolve_connections:
  "f_connections (resolve cfg rnd dt spark other key d fr) =
     (f_connections fr)(key \<mapsto>
        \<lparr> strength = track_strength (strength_at (f_connections fr) key)
                       (smoothstep (interactionRadius cfg) 0 d) dt,
          conn_a = spark, conn_b = other \<rparr>)"
proof (cases "f_connections fr key")
  case None
  then show ?thesis by (simp add: resolve_def Let_def strength_at_def)
next
  case (Some c)
  then show ?thesis by (cases c) (simp add: resolve_def Let_def strength_at_def)
qed

lemma resolve_frame [simp]:
  "interactions (resolve cfg rnd dt spark other key d fr) = interactions fr + 1"
  "processed (resolve cfg rnd dt spark other key d fr) = processed fr"
  "activeConnections (resolve cfg rnd dt spark other key d fr) = insert key (activeConnections fr)"
  by (simp_all add: resolve_def Let_def)

subsection \<open>Smoothing of the connection strength\<close>




subsection \<open>The energy moved by a resolved pair\<close>

lemma Math_hypot_0 [simp]: "Math_hypot a 0 = \<bar>a\<bar>" "Math_hypot 0 b = \<bar>b\<bar>"
  by (simp_all add: Math_hypot_def)

lemma contaminate_fields [simp]:
  "energy (contaminate cfg dt w g r hp x) = energy (hp x)"
  "spark_x (contaminate cfg dt w g r hp x) = spark_x (hp x)"
  "spark_y (contaminate cfg dt w g r hp x) = spark_y (hp x)"
  "polarity (contaminate cfg dt w g r hp x) = polarity (hp x)"
  by (simp_all add: contaminate_def Let_def)

lemma ring_feedback_fields [simp]:
  "energy (ring_feedback w g hp x) = energy (hp x)"
  "spark_x (ring_feedback w g hp x) = spark_x (hp x)"
  "spark_y (ring_feedback w g hp x) = spark_y (hp x)"
  "polarity (ring_feedback w g hp x) = polarity (hp x)"
  by (simp_all add: ring_feedback_def)

lemma transfer_energy_fields [simp]:
  "spark_x (transfer_energy cfg dt w g r hp x) = spark_x (hp x)"
  "spark_y (transfer_energy cfg dt w g r hp x) = spark_y (hp x)"
  "polarity (transfer_energy cfg dt w g r hp x) = polarity (hp x)"
  by (simp_all add: transfer_energy_def Let_def)

lemma transfer_energy_giver:
  "g \<noteq> r \<Longrightarrow> energy (transfer_energy cfg dt w g r hp g)
     = energy (hp g) - deltaEnergy cfg dt w (energy (hp g))"
  by (simp add: transfer_energy_def Let_def)

lemma transfer_energy_receiver:
  "g \<noteq> r \<Longrightarrow> energy (transfer_energy cfg dt w g r hp r)
     = min 1 (energy (hp r) + deltaEnergy cfg dt w (energy (hp g)))"
  by (simp add: transfer_energy_def Let_def)

lemma resolve_heap:
  "f_heap (resolve cfg rnd dt spark other key d fr) =
     (let w = strength_at (f_connections (resolve cfg rnd dt spark other key d fr)) key;
          g = giver_of (f_heap fr) spark other;
          r = receiver_of (f_heap fr) spark other
      in if w > 0.1
         then contaminate cfg dt w g r (ring_feedback w g (transfer_energy cfg dt w g r (f_heap fr)))
         else f_heap fr)"
  unfolding resolve_connections
  by (simp add: strength_at_def)
    (simp add: resolve_def Let_def exchange_heap strength_at_def split: option.split)

lemma roles_distinct:
  "spark \<noteq> other \<Longrightarrow> giver_of hp spark other \<noteq> receiver_of hp spark other"
  by (simp add: giver_of_def receiver_of_def)

text \<open>Resolving a pair of the example population that has no connection yet, at
  distance 55 and with \<open>dt = 0.1\<close>: the connection gets the strength 0.15, above the
  activation threshold.\<close>

lemma resolve_example:
  assumes hp: "f_heap fr = example_store" and c: "f_connections fr key = None"
  shows "strength_at (f_connections (resolve CONFIG rnd 0.1 spark other key 55 fr)) key = 0.15"
    and "f_heap (resolve CONFIG rnd 0.1 spark other key 55 fr) =
         contaminate CONFIG 0.1 0.15
           (giver_of example_store spark other) (receiver_of example_store spark other)
           (ring_feedback 0.15 (giver_of example_store spark other)
             (transfer_energy CONFIG 0.1 0.15 (giver_of example_store spark other)
                (receiver_of example_store spark other) example_store))"
proof -
  show w: "strength_at (f_connections (resolve CONFIG rnd 0.1 spark other key 55 fr)) key = 0.15"
    by (simp add: resolve_connections c strength_at_def track_strength_def
        smoothstep_def clamp_def fadeSpeed_def CONFIG_def)
  show "f_heap (resolve CONFIG rnd 0.1 spark other key 55 fr) =
         contaminate CONFIG 0.1 0.15
           (giver_of example_store spark other) (receiver_of example_store spark other)
           (ring_feedback 0.15 (giver_of example_store spark other)
             (transfer_energy CONFIG 0.1 0.15 (giver_of example_store spark other)
                (receiver_of example_store spark other) example_store))"
    using resolve_heap [of CONFIG rnd "0.1" spark other key 55 fr]
    unfolding hp w by (simp add: Let_def)
qed

lemma deltaEnergy_example:
  "deltaEnergy CONFIG 0.1 0.15 (energy (example_store 0)) = 0.00585"
  by (simp add: deltaEnergy_def clamp_def CONFIG_def example_store_def spark0_def)

lemma example_roles:
  "giver_of example_store 0 1 = 0" "receiver_of example_store 0 1 = 1"
  "giver_of example_store 0 2 = 0" "receiver_of example_store 0 2 = 2"
  by (simp_all add: giver_of_def receiver_of_def example_store_def spark0_def spark1_def
      spark2_def)

lemma example_energy:
  "energy (example_store 0) = 0.8" "energy (example_store 1) = 0.999"
  "energy (example_store 2) = 0.5"
  by (simp_all add: example_store_def spark0_def spark1_def spark2_def)

lemma interact_example_0_1:
  "interact CONFIG rnd 0.1 0 1 example_frame
     = resolve CONFIG rnd 0.1 0 1 (0, 1) 55 (example_frame\<lparr> processed := {(0, 1)} \<rparr>)"
  by (simp add: interact_def getConnectionKey_def example_frame_def example_store_def
      spark0_def spark1_def CONFIG_def Let_def)

text \<open>
  Claim C1, as the code has it. When a pair of two different sparks at a distance
  \<open>d\<close> inside the interaction radius is resolved and the strength of its connection
  exceeds the activation threshold 0.1, the receiver's energy becomes the minimum of
  1 and its energy plus the amount subtracted from the giver. So the amount added
  equals the amount subtracted whenever the receiver's energy plus that amount does
  not exceed 1, and otherwise the receiver ends at 1.
\<close>

theorem C1_energy_moved:
  assumes "spark \<noteq> other"
    and "0 < d" and "d < interactionRadius cfg"
    and "0.1 < strength_at (f_connections (resolve cfg rnd dt spark other key d fr)) key"
  shows "let fr' = resolve cfg rnd dt spark other key d fr;
             g = giver_of (f_heap fr) spark other;
             r = receiver_of (f_heap fr) spark other;
             subtracted = energy (f_heap fr g) - energy (f_heap fr' g);
             added = energy (f_heap fr' r) - energy (f_heap fr r)
         in energy (f_heap fr' r) = min 1 (energy (f_heap fr r) + subtracted)
          \<and> (energy (f_heap fr r) + subtracted \<le> 1 \<longrightarrow> added = subtracted)"
proof -
  let ?g = "giver_of (f_heap fr) spark other" and ?r = "receiver_of (f_heap fr) spark other"
  have ne: "?g \<noteq> ?r" using assms(1) by (rule roles_distinct)
  show ?thesis
    using assms(4) ne
    by (simp add: resolve_heap [of cfg rnd dt spark other key d fr] Let_def
        transfer_energy_giver transfer_energy_receiver)
qed

theorem C1_energy_moved_witness:
  "(0::nat) \<noteq> 2 \<and> (0::real) < 55 \<and> 55 < interactionRadius CONFIG
   \<and> 0.1 < strength_at (f_connections
              (resolve CONFIG (\<lambda>_. 0.5) 0.1 0 2 (0, 2) 55 example_frame)) (0, 2)
   \<and> energy (f_heap example_frame 2) + 0.00585 \<le> 1
   \<and> energy (f_heap example_frame 0)
        - energy (f_heap (resolve CONFIG (\<lambda>_. 0.5) 0.1 0 2 (0, 2) 55 example_frame) 0)
       = 0.00585
   \<and> energy (f_heap (resolve CONFIG (\<lambda>_. 0.5) 0.1 0 2 (0, 2) 55 example_frame) 2)
        - energy (f_heap example_frame 2)
       = 0.00585"
proof -
  define fr' where "fr' = resolve CONFIG (\<lambda>_. 0.5) 0.1 0 2 (0, 2) 55 example_frame"
  have hp0: "f_heap example_frame = example_store"
    and c0: "f_connections example_frame (0, 2) = None"
    by (simp_all add: example_frame_def)
  note ex = resolve_example [OF hp0 c0, of "\<lambda>_. 0.5" 0 2, folded fr'_def]
  have ne: "(0::nat) \<noteq> 2" by simp
  have d: "(0::real) < 55" "55 < interactionRadius CONFIG"
    by (simp_all add: CONFIG_def)
  have w: "0.1 < strength_at (f_connections fr') (0, 2)"
    unfolding ex(1) by simp
  have sub: "energy (f_heap example_frame 0) - energy (f_heap fr' 0) = 0.00585"
    unfolding ex(2) hp0 example_roles using deltaEnergy_example
    by (simp add: transfer_energy_giver)
  have room: "energy (f_heap example_frame 2) + 0.00585 \<le> 1"
    unfolding hp0 example_energy by simp
  have "energy (f_heap fr' 2) - energy (f_heap example_frame 2) = 0.00585"
    using C1_energy_moved [of 0 2 55 CONFIG "\<lambda>_. 0.5" "0.1" "(0, 2)" example_frame,
        folded fr'_def, OF ne d w] sub room
    unfolding hp0 example_roles Let_def by simp
  then show ?thesis
    using ne d w sub room unfolding fr'_def by blast
qed

text \<open>
  Claim C1 as stated fails when the receiver is near 1. In the example population
  spark 0 (polarity 0.8, energy 0.8) gives to spark 1 (polarity 0.3, energy 0.999)
  over a connection of strength 0.15: the giver loses 0.00585 and the receiver, capped
  at 1, gains 0.001.
\<close>

theorem C1_receiver_capped_not_conservative:
  "let fr' = interact CONFIG (\<lambda>_. 0.5) 0.1 0 1 example_frame
   in strength_at (f_connections fr') (0, 1) = 0.15
    \<and> giver_of (f_heap example_frame) 0 1 = 0
    \<and> receiver_of (f_heap example_frame) 0 1 = 1
    \<and> energy (f_heap example_frame 0) - energy (f_heap fr' 0) = 0.00585
    \<and> energy (f_heap fr' 1) - energy (f_heap example_frame 1) = 0.001"
proof -
  define fr0 where "fr0 = example_frame\<lparr> processed := {(0, 1)} \<rparr>"
  define fr' where "fr' = resolve CONFIG (\<lambda>_. 0.5) 0.1 0 1 (0, 1) 55 fr0"
  have hp0: "f_heap fr0 = example_store" and c0: "f_connections fr0 (0, 1) = None"
    by (simp_all add: fr0_def example_frame_def)
  note ex = resolve_example [OF hp0 c0, of "\<lambda>_. 0.5" 0 1, folded fr'_def]
  have e0: "energy (f_heap fr' 0) = energy (example_store 0) - 0.00585"
    unfolding ex(2) example_roles using deltaEnergy_example
    by (simp add: transfer_energy_giver)
  have "energy (f_heap fr' 1)
          = min 1 (energy (example_store 1)
                   + deltaEnergy CONFIG 0.1 0.15 (energy (example_store 0)))"
    unfolding ex(2) example_roles by (simp add: transfer_energy_receiver)
  then have "energy (f_heap fr' 1) = min 1 (energy (example_store 1) + 0.00585)"
    unfolding deltaEnergy_example .
  then have e1: "energy (f_heap fr' 1) = 1"
    unfolding example_energy by simp
  have i: "interact CONFIG (\<lambda>_. 0.5) 0.1 0 1 example_frame = fr'"
    unfolding fr'_def fr0_def by (rule interact_example_0_1)
  have s: "f_heap example_frame = example_store"
    by (simp add: example_frame_def)
  show ?thesis
    unfolding i Let_def s using ex(1) example_roles e0 e1 example_energy by simp
qed

subsection \<open>Properties of the store that the interaction pass preserves\<close>

lemma resolve_preserves:
  assumes S: "pair_stable cfg dt Q"
    and Q: "Q (f_heap fr)"
  shows "Q (f_heap (resolve cfg rnd dt spark other key d fr))"
proof -
  have "Q (contaminate cfg dt w g r (ring_feedback w g (transfer_energy cfg dt w g r (f_heap fr))))"
    for w g r
    using S Q by (simp add: pair_stable_def)
  then show ?thesis
    using Q by (simp add: resolve_heap [of cfg rnd dt spark other key d fr] Let_def)
qed

lemma interact_preserves:
  assumes S: "pair_stable cfg dt Q"
    and Q: "Q (f_heap fr)"
  shows "Q (f_heap (interact cfg rnd dt spark other fr))"
proof -
  have "Q (f_heap (resolve cfg rnd dt spark other key d
             (fr\<lparr> processed := insert key (processed fr) \<rparr>)))" for key d
    by (rule resolve_preserves [OF S]) (simp add: Q)
  then show ?thesis
    using Q by (simp add: interact_def Let_def)
qed

lemma neighbor_loop_preserves:
  assumes S: "pair_stable cfg dt Q"
  shows "Q (f_heap fr) \<Longrightarrow> Q (f_heap (neighbor_loop cfg rnd dt spark ns fr))"
proof (induction ns arbitrary: fr)
  case Nil
  then show ?case by simp
next
  case (Cons other ns)
  from Cons.prems have "Q (f_heap (interact cfg rnd dt spark other fr))"
    by (rule interact_preserves [OF S])
  then show ?case by (simp add: Cons.IH)
qed

lemma spark_loop_preserves:
  assumes S: "pair_stable cfg dt Q"
  shows "Q (f_heap fr) \<Longrightarrow> Q (f_heap (spark_loop cfg rnd dt gr ss fr))"
proof (induction ss arbitrary: fr)
  case Nil
  then show ?case by simp
next
  case (Cons spark ss)
  from Cons.prems
  have "Q (f_heap (neighbor_loop cfg rnd dt spark (getNeighbors (f_heap fr) gr spark) fr))"
    by (rule neighbor_loop_preserves [OF S])
  with Cons.prems show ?case by (simp add: Cons.IH)
qed

lemma processInteractions_fields [simp]:
  "sparks (processInteractions cfg rnd dt st) = sparks st"
  "heap (processInteractions cfg rnd dt st) = f_heap (run_pass cfg rnd dt st)"
  "flowParticles (processInteractions cfg rnd dt st) = f_flowParticles (run_pass cfg rnd dt st)"
  "connections (processInteractions cfg rnd dt st)
     = fade_out dt (activeConnections (run_pass cfg rnd dt st))
         (f_connections (run_pass cfg rnd dt st))"
  "sparkIdCounter (processInteractions cfg rnd dt st) = sparkIdCounter st"
  by (simp_all add: processInteractions_def Let_def)

lemma start_frame_fields [simp]:
  "f_heap (start_frame st) = heap st"
  "f_connections (start_frame st) = connections st"
  "f_flowParticles (start_frame st) = flowParticles st"
  "interactions (start_frame st) = 0"
  "processed (start_frame st) = {}"
  "activeConnections (start_frame st) = {}"
  by (simp_all add: start_frame_def)

lemma run_pass_preserves:
  assumes S: "pair_stable cfg dt Q"
    and Q: "Q (heap st)"
  shows "Q (f_heap (run_pass cfg rnd dt st))"
proof -
  have "Q (f_heap (start_frame st))"
    using Q by simp
  then show ?thesis
    unfolding run_pass_def by (rule spark_loop_preserves [OF S])
qed

lemma run_pass_polarity: "polarity (f_heap (run_pass cfg rnd dt st) x) = polarity (heap st x)"
  by (rule run_pass_preserves [where Q = "\<lambda>hp. polarity (hp x) = polarity (heap st x)"])
    (simp_all add: pair_stable_def)

lemma run_pass_position:
  "spark_x (f_heap (run_pass cfg rnd dt st) x) = spark_x (heap st x)
   \<and> spark_y (f_heap (run_pass cfg rnd dt st) x) = spark_y (heap st x)"
  by (rule run_pass_preserves
      [where Q = "\<lambda>hp. spark_x (hp x) = spark_x (heap st x) \<and> spark_y (hp x) = spark_y (heap st x)"])
    (simp_all add: pair_stable_def)

subsection \<open>Sparks through the spawn loop and the update of the sparks\<close>

lemma update_sparks_preserves:
  assumes U: "\<And>hp s. Q hp \<Longrightarrow> Q (hp(s := fst (Spark_update cfg dt time (hp s))))"
  shows "Q hp \<Longrightarrow> Q (snd (update_sparks cfg dt time ss hp))"
proof (induction ss arbitrary: hp)
  case Nil
  then show ?case by simp
next
  case (Cons s ss)
  have "Q (hp(s := fst (Spark_update cfg dt time (hp s))))"
    using Cons.prems by (rule U)
  from Cons.IH [OF this] show ?case
    by (simp add: split_beta Let_def del: fun_upd_apply)
qed

lemma Spark_update_fixed [simp]:
  "polarity (fst (Spark_update cfg dt time s)) = polarity s"
  "birth (fst (Spark_update cfg dt time s)) = birth s"
  "lifetime (fst (Spark_update cfg dt time s)) = lifetime s"
  "snd (Spark_update cfg dt time s) \<longleftrightarrow> time - birth s < lifetime s"
  by (simp_all add: Spark_update_def Let_def)

lemma update_sparks_subset:
  "set (fst (update_sparks cfg dt time ss hp)) \<subseteq> set ss"
  by (induction ss arbitrary: hp) (auto simp: split_beta Let_def)

lemma spawnSpark_old:
  "sparkIdCounter st \<le> sparkIdCounter (spawnSpark cfg rnd now st)"
  "x < sparkIdCounter st \<Longrightarrow> heap (spawnSpark cfg rnd now st) x = heap st x"
  "set (sparks st) \<subseteq> set (sparks (spawnSpark cfg rnd now st))"
  by (auto simp: spawnSpark_def Let_def)

lemma spawn_loop_old:
  "sparkIdCounter st \<le> sparkIdCounter (spawn_loop cfg rnd now st)
   \<and> (x < sparkIdCounter st \<longrightarrow> heap (spawn_loop cfg rnd now st) x = heap st x)
   \<and> set (sparks st) \<subseteq> set (sparks (spawn_loop cfg rnd now st))"
proof (induction cfg rnd now st rule: spawn_loop.induct)
  case (1 cfg rnd now st)
  show ?case
  proof (cases "spawnAccumulator st \<ge> 1")
    case False
    then show ?thesis by (subst (1 2 3) spawn_loop.simps) simp
  next
    case True
    define st1 where "st1 = spawnSpark cfg rnd now st"
    define st2 where "st2 = st1\<lparr> spawnAccumulator := spawnAccumulator st1 - 1 \<rparr>"
    have eq: "spawn_loop cfg rnd now st = spawn_loop cfg rnd now st2"
      using True by (subst spawn_loop.simps) (simp add: st1_def st2_def Let_def)
    note IH = "1.IH" [OF True st1_def, folded st2_def]
    have a: "sparkIdCounter st \<le> sparkIdCounter st2"
      and b: "x < sparkIdCounter st \<longrightarrow> heap st2 x = heap st x"
      and c: "set (sparks st) \<subseteq> set (sparks st2)"
      using spawnSpark_old [where st = st and cfg = cfg and rnd = rnd and now = now]
      by (auto simp: st2_def st1_def)
    show ?thesis
      unfolding eq using IH a b c by auto
  qed
qed

lemma SparkSystem_update_phases:
  "SparkSystem_update cfg rnd now time st =
     (let st6 = processInteractions cfg rnd (frame_dt time st) (cull_phase cfg rnd now time st)
      in st6\<lparr> flowParticles := update_flow cfg (heap st6) (frame_dt time st) (flowParticles st6) \<rparr>)"
  by (simp add: SparkSystem_update_def cull_phase_def spawn_phase_def Let_def split_beta)

lemma update_heap:
  "heap (SparkSystem_update cfg rnd now time st)
     = f_heap (run_pass cfg rnd (frame_dt time st) (cull_phase cfg rnd now time st))"
  "sparks (SparkSystem_update cfg rnd now time st) = sparks (cull_phase cfg rnd now time st)"
  by (simp_all add: SparkSystem_update_phases Let_def)

lemma spawn_phase_old:
  "sparkIdCounter st \<le> sparkIdCounter (spawn_phase cfg rnd now time st)"
  "x < sparkIdCounter st \<Longrightarrow> heap (spawn_phase cfg rnd now time st) x = heap st x"
  "set (sparks st) \<subseteq> set (sparks (spawn_phase cfg rnd now time st))"
  using spawn_loop_old [of "st\<lparr> lastTime := time,
             spawnAccumulator := spawnAccumulator st + spawnRatePerSec cfg * frame_dt time st \<rparr>"
            cfg rnd now x]
  by (simp_all add: spawn_phase_def)

lemma cull_phase_fields [simp]:
  "sparks (cull_phase cfg rnd now time st)
     = fst (update_sparks cfg (frame_dt time st) time (sparks (spawn_phase cfg rnd now time st))
              (heap (spawn_phase cfg rnd now time st)))"
  "heap (cull_phase cfg rnd now time st)
     = snd (update_sparks cfg (frame_dt time st) time (sparks (spawn_phase cfg rnd now time st))
              (heap (spawn_phase cfg rnd now time st)))"
  "connections (cull_phase cfg rnd now time st)
     = purge_dead (set (sparks (cull_phase cfg rnd now time st)))
         (connections (spawn_phase cfg rnd now time st))"
  "flowParticles (cull_phase cfg rnd now time st) = flowParticles (spawn_phase cfg rnd now time st)"
  by (simp_all add: cull_phase_def Let_def)

lemma update_polarity:
  assumes "x < sparkIdCounter st"
  shows "polarity (heap (SparkSystem_update cfg rnd now time st) x) = polarity (heap st x)"
proof -
  have "polarity (heap (cull_phase cfg rnd now time st) x)
          = polarity (heap (spawn_phase cfg rnd now time st) x)"
    unfolding cull_phase_fields
    by (rule update_sparks_preserves
        [where Q = "\<lambda>hp. polarity (hp x) = polarity (heap (spawn_phase cfg rnd now time st) x)"])
      auto
  then show ?thesis
    using assms by (simp add: update_heap run_pass_polarity spawn_phase_old)
qed

text \<open>
  Claim C5. Of two sparks with different polarity the one with the strictly greater
  polarity is the giver and the other the receiver, whichever of the two the loop
  over the sparks visits first. A frame leaves the polarity of every spark that
  exists unchanged, so the roles are the same after the frame.
\<close>

theorem C5_roles_by_polarity:
  assumes "polarity (heap st a) > polarity (heap st b)"
    and "a < sparkIdCounter st" and "b < sparkIdCounter st"
  shows "giver_of (heap st) a b = a \<and> receiver_of (heap st) a b = b
       \<and> giver_of (heap st) b a = a \<and> receiver_of (heap st) b a = b
       \<and> (let st' = SparkSystem_update cfg rnd now time st
          in giver_of (heap st') a b = a \<and> receiver_of (heap st') a b = b
           \<and> giver_of (heap st') b a = a \<and> receiver_of (heap st') b a = b)"
  using assms by (simp add: giver_of_def receiver_of_def Let_def update_polarity)

theorem C5_roles_by_polarity_witness:
  "polarity (heap example_system 0) > polarity (heap example_system 1)
   \<and> 0 < sparkIdCounter example_system \<and> 1 < sparkIdCounter example_system
   \<and> giver_of (heap example_system) 0 1 = 0 \<and> giver_of (heap example_system) 1 0 = 0
   \<and> giver_of (heap (SparkSystem_update CONFIG (\<lambda>_. 0.5) (\<lambda>_. 0) 16 example_system)) 0 1 = 0
   \<and> giver_of (heap (SparkSystem_update CONFIG (\<lambda>_. 0.5) (\<lambda>_. 0) 16 example_system)) 1 0 = 0"
proof -
  have h: "polarity (heap example_system 0) > polarity (heap example_system 1)"
    "0 < sparkIdCounter example_system" "1 < sparkIdCounter example_system"
    by (simp_all add: example_system_def example_store_def spark0_def spark1_def)
  show ?thesis
    using C5_roles_by_polarity [OF h, of CONFIG "\<lambda>_. 0.5" "\<lambda>_. 0" 16] h
    by (simp add: Let_def)
qed

subsection \<open>The energy bounds\<close>

lemma Math_pow_unit:
  assumes "0 \<le> b" "b \<le> 1" "0 \<le> e"
  shows "0 \<le> Math_pow b e \<and> Math_pow b e \<le> 1"
  using assms by (simp add: Math_pow_def powr_le1)

lemma deltaEnergy_bounds:
  "0 \<le> deltaEnergy cfg dt w e \<and> deltaEnergy cfg dt w e \<le> max 0 (e - energyFloor cfg)"
proof -
  define t where "t = clamp (w * transferRatePerSec cfg * dt) 0 1"
  have t: "0 \<le> t" "t \<le> 1"
    using clamp_range [of 0 1] by (simp_all add: t_def)
  have m: "0 \<le> max 0 (e - energyFloor cfg)" by simp
  have "0 \<le> t * max 0 (e - energyFloor cfg)"
    using t m by (intro mult_nonneg_nonneg)
  moreover have "t * max 0 (e - energyFloor cfg) \<le> 1 * max 0 (e - energyFloor cfg)"
    using t m by (intro mult_right_mono)
  ultimately show ?thesis
    by (simp add: deltaEnergy_def t_def [symmetric])
qed

lemma transfer_energy_ok:
  assumes fl: "0 \<le> energyFloor cfg" and ok: "energy_ok cfg (hp x)"
  shows "energy_ok cfg (transfer_energy cfg dt w g r hp x)"
proof -
  define d where "d = deltaEnergy cfg dt w (energy (hp g))"
  have d: "0 \<le> d" "d \<le> max 0 (energy (hp g) - energyFloor cfg)"
    using deltaEnergy_bounds [of cfg dt w "energy (hp g)"] by (simp_all add: d_def)
  have e: "energy (transfer_energy cfg dt w g r hp x) =
      (if x = r then min 1 ((if g = r then energy (hp g) - d else energy (hp r)) + d)
       else if x = g then energy (hp g) - d else energy (hp x))"
    by (simp add: transfer_energy_def Let_def d_def)
  show ?thesis
    using ok d fl unfolding energy_ok_def e by (auto simp: max_def min_def split: if_splits)
qed

lemma pair_stable_energy_ok:
  "0 \<le> energyFloor cfg \<Longrightarrow> pair_stable cfg dt (\<lambda>hp. energy_ok cfg (hp x))"
  by (simp add: pair_stable_def transfer_energy_ok) (simp add: energy_ok_def)

lemma Spark_update_energy_ok:
  assumes "0 \<le> dt" "0 \<le> energyFloor cfg" "0 \<le> energyDecayPerSec cfg"
    "energyDecayPerSec cfg \<le> 1" "energy_ok cfg s"
  shows "energy_ok cfg (fst (Spark_update cfg dt time s))"
proof -
  define f where "f = Math_pow (1 - energyDecayPerSec cfg) dt"
  have f: "0 \<le> f" "f \<le> 1"
    using Math_pow_unit [of "1 - energyDecayPerSec cfg" dt] assms by (simp_all add: f_def)
  have e0: "0 \<le> energy s" "energy s \<le> 1" "energyFloor cfg * 0.5 \<le> 1"
    using assms by (simp_all add: energy_ok_def)
  have "energy s * f \<le> energy s * 1"
    using f e0 by (intro mult_left_mono) simp_all
  then have "energy s * f \<le> 1" using e0 by simp
  moreover have "energy (fst (Spark_update cfg dt time s)) = max (energyFloor cfg * 0.5) (energy s * f)"
    by (simp add: Spark_update_def Let_def f_def)
  ultimately show ?thesis
    using e0 by (simp add: energy_ok_def)
qed

lemma new_Spark_energy:
  "energy (new_Spark cfg rnd k t px py pw ph net) = 0.4 + rnd (k + 3) * 0.4"
  by (simp add: new_Spark_def Let_def)

lemma spawnSpark_energy_inv:
  assumes fl: "energyFloor cfg \<le> 0.8" and rnd: "\<forall>k. 0 \<le> rnd k \<and> rnd k < 1"
    and inv: "energy_inv cfg st"
  shows "energy_inv cfg (spawnSpark cfg rnd now st)"
proof -
  have r: "0 \<le> rnd (rng st + 2 + 3)" "rnd (rng st + 2 + 3) < 1"
    using rnd by simp_all
  have "energy_ok cfg (new_Spark cfg rnd (rng st + 2) t px py pw ph net)" for t px py pw ph net
    using fl r by (simp add: energy_ok_def new_Spark_energy)
  then show ?thesis
    using inv by (auto simp: energy_inv_def spawnSpark_def Let_def)
qed

lemma spawn_loop_energy_inv:
  "energyFloor cfg \<le> 0.8 \<Longrightarrow> \<forall>k. 0 \<le> rnd k \<and> rnd k < 1 \<Longrightarrow> energy_inv cfg st
   \<Longrightarrow> energy_inv cfg (spawn_loop cfg rnd now st)"
proof (induction cfg rnd now st rule: spawn_loop.induct)
  case (1 cfg rnd now st)
  show ?case
  proof (cases "spawnAccumulator st \<ge> 1")
    case False
    then show ?thesis using "1.prems" by (subst spawn_loop.simps) simp
  next
    case True
    define st1 where "st1 = spawnSpark cfg rnd now st"
    define st2 where "st2 = st1\<lparr> spawnAccumulator := spawnAccumulator st1 - 1 \<rparr>"
    have eq: "spawn_loop cfg rnd now st = spawn_loop cfg rnd now st2"
      using True by (subst spawn_loop.simps) (simp add: st1_def st2_def Let_def)
    have "energy_inv cfg st1"
      unfolding st1_def using "1.prems" by (intro spawnSpark_energy_inv)
    then have "energy_inv cfg st2"
      by (simp add: st2_def energy_inv_def)
    from "1.IH" [OF True st1_def, folded st2_def, OF "1.prems"(1,2) this] show ?thesis
      unfolding eq .
  qed
qed

lemma frame_dt_nonneg: "lastTime st \<le> time \<Longrightarrow> 0 \<le> frame_dt time st"
  by (simp add: frame_dt_def)

lemma transfer_energy_giver_floor:
  assumes "g \<noteq> r" and "energyFloor cfg \<le> energy (hp g)"
  shows "energyFloor cfg \<le> energy (transfer_energy cfg dt w g r hp g)"
  using deltaEnergy_bounds [of cfg dt w "energy (hp g)"] assms
  by (simp add: transfer_energy_giver)

text \<open>
  Claim C6. The bounds \<open>energyFloor \<cdot> 0.5 \<le> energy \<le> 1\<close> hold for a spark when
  \<^verbatim>\<open>spawnSpark\<close> creates it and are kept by every frame, for every spark of the
  system, when the frame's timestamp is not before the previous one; and a transfer
  does not take a giver that is at or above the floor below the floor. The
  configuration has \<open>0 \<le> energyFloor \<le> 0.8\<close> and \<open>0 \<le> energyDecayPerSec \<le> 1\<close>, as the
  shipped one has, and \<^verbatim>\<open>Math.random()\<close> returns values in \<open>[0, 1)\<close>.
\<close>

theorem C6_energy_bounds:
  assumes "0 \<le> energyFloor cfg" and "energyFloor cfg \<le> 0.8"
    and "0 \<le> energyDecayPerSec cfg" and "energyDecayPerSec cfg \<le> 1"
    and "\<forall>k. 0 \<le> rnd k \<and> rnd k < 1"
    and "lastTime st \<le> time"
    and "energy_inv cfg st"
  shows "energy_inv cfg (spawnSpark cfg rnd now st)
       \<and> energy_inv cfg (SparkSystem_update cfg rnd now time st)
       \<and> (giver \<noteq> receiver \<and> energyFloor cfg \<le> energy (hp giver)
            \<longrightarrow> energyFloor cfg \<le> energy (transfer_energy cfg dt w giver receiver hp giver))"
proof -
  let ?dt = "frame_dt time st"
  let ?st3 = "spawn_phase cfg rnd now time st"
  let ?st5 = "cull_phase cfg rnd now time st"
  have dt: "0 \<le> ?dt" using assms(6) by (rule frame_dt_nonneg)
  have "energy_inv cfg (st\<lparr> lastTime := time,
            spawnAccumulator := spawnAccumulator st + spawnRatePerSec cfg * ?dt \<rparr>)"
    using assms(7) by (simp add: energy_inv_def)
  then have inv3: "energy_inv cfg ?st3"
    unfolding spawn_phase_def by (intro spawn_loop_energy_inv assms(2,5))
  have inv5: "energy_ok cfg (heap ?st5 x)" if "x \<in> set (sparks ?st5)" for x
  proof -
    have "x \<in> set (sparks ?st3)"
      using that update_sparks_subset [of cfg ?dt time "sparks ?st3" "heap ?st3"]
      by (auto simp: cull_phase_fields)
    then have "energy_ok cfg (heap ?st3 x)"
      using inv3 by (simp add: energy_inv_def)
    then show ?thesis
      unfolding cull_phase_fields
      by (rule update_sparks_preserves [where Q = "\<lambda>hp. energy_ok cfg (hp x)", rotated])
        (auto intro: Spark_update_energy_ok [OF dt assms(1,3,4)])
  qed
  have "energy_ok cfg (f_heap (run_pass cfg rnd ?dt ?st5) x)" if "x \<in> set (sparks ?st5)" for x
    by (rule run_pass_preserves [OF pair_stable_energy_ok [OF assms(1)] inv5 [OF that]])
  then have "energy_inv cfg (SparkSystem_update cfg rnd now time st)"
    by (simp add: energy_inv_def update_heap)
  moreover have "energy_inv cfg (spawnSpark cfg rnd now st)"
    by (intro spawnSpark_energy_inv assms)
  ultimately show ?thesis
    using transfer_energy_giver_floor [of giver receiver cfg hp dt w] by blast
qed

lemma example_system_energy_inv: "energy_inv CONFIG example_system"
  by (simp add: energy_inv_def energy_ok_def example_system_def example_store_def
      spark0_def spark1_def spark2_def CONFIG_def)

theorem C6_energy_bounds_witness:
  "0 \<le> energyFloor CONFIG \<and> energyFloor CONFIG \<le> 0.8
   \<and> 0 \<le> energyDecayPerSec CONFIG \<and> energyDecayPerSec CONFIG \<le> 1
   \<and> (\<forall>k. (0::real) \<le> (\<lambda>_. 0.5) k \<and> (\<lambda>_. 0.5) k < (1::real))
   \<and> lastTime example_system \<le> 16
   \<and> energy_inv CONFIG example_system
   \<and> energy_inv CONFIG (spawnSpark CONFIG (\<lambda>_. 0.5) (\<lambda>_. 0) example_system)
   \<and> energy_inv CONFIG (SparkSystem_update CONFIG (\<lambda>_. 0.5) (\<lambda>_. 0) 16 example_system)
   \<and> (0::nat) \<noteq> 1 \<and> energyFloor CONFIG \<le> energy (example_store 0)
   \<and> energyFloor CONFIG \<le> energy (transfer_energy CONFIG 0.1 0.15 0 1 example_store 0)"
proof -
  have c: "0 \<le> energyFloor CONFIG" "energyFloor CONFIG \<le> 0.8"
    "0 \<le> energyDecayPerSec CONFIG" "energyDecayPerSec CONFIG \<le> 1"
    by (simp_all add: CONFIG_def)
  have r: "\<forall>k. (0::real) \<le> (\<lambda>_. 0.5) k \<and> (\<lambda>_. 0.5) k < (1::real)"
    by simp
  have t: "lastTime example_system \<le> 16"
    by (simp add: example_system_def)
  have g: "(0::nat) \<noteq> 1" "energyFloor CONFIG \<le> energy (example_store 0)"
    by (simp_all add: example_energy CONFIG_def)
  note inst = C6_energy_bounds [OF c r t example_system_energy_inv,
      of "\<lambda>_. 0" 0 1 example_store "0.1" "0.15"]
  from inst g have "energyFloor CONFIG \<le> energy (transfer_energy CONFIG 0.1 0.15 0 1 example_store 0)"
    by blast
  with inst c r t g example_system_energy_inv show ?thesis
    by blast
qed

subsection \<open>The torus wrap\<close>

lemma speed_clamp:
  fixes a b M :: real
  assumes M: "0 \<le> M"
  defines "speed \<equiv> Math_hypot a b"
  shows "\<bar>if speed > M then (a / speed) * M else a\<bar> \<le> M"
    and "\<bar>if speed > M then (b / speed) * M else b\<bar> \<le> M"
proof -
  have a: "\<bar>a\<bar> \<le> speed" and b: "\<bar>b\<bar> \<le> speed"
    unfolding speed_def Math_hypot_def
    by (rule real_le_rsqrt, simp add: power2_eq_square)+
  have r: "\<bar>(c / speed) * M\<bar> \<le> M" if "\<bar>c\<bar> \<le> speed" "speed > M" for c
  proof -
    have pos: "0 < speed" using that M by simp
    have "\<bar>c / speed\<bar> \<le> 1" using that pos by (simp add: abs_le_iff pos_divide_le_eq pos_le_divide_eq) 
    then have "\<bar>c / speed\<bar> * M \<le> 1 * M" using M by (intro mult_right_mono)
    then show ?thesis using M by (simp add: abs_mult)
  qed
  show "\<bar>if speed > M then (a / speed) * M else a\<bar> \<le> M"
    using a r [OF a] by auto
  show "\<bar>if speed > M then (b / speed) * M else b\<bar> \<le> M"
    using b r [OF b] by auto
qed

lemma Spark_update_position:
  "spark_x (fst (Spark_update cfg dt time s))
     = torus_wrap (spark_x s + fst (next_velocity cfg dt time s) * dt) (spark_w s)"
  "spark_y (fst (Spark_update cfg dt time s))
     = torus_wrap (spark_y s + snd (next_velocity cfg dt time s) * dt) (spark_h s)"
  "spark_w (fst (Spark_update cfg dt time s)) = spark_w s"
  "spark_h (fst (Spark_update cfg dt time s)) = spark_h s"
  by (simp_all add: Spark_update_def next_velocity_def torus_wrap_def Let_def)

lemma next_velocity_bounded:
  assumes "0 \<le> maxSpeed cfg"
  shows "\<bar>fst (next_velocity cfg dt time s)\<bar> \<le> maxSpeed cfg"
    and "\<bar>snd (next_velocity cfg dt time s)\<bar> \<le> maxSpeed cfg"
  using speed_clamp [OF assms] by (simp_all add: next_velocity_def Let_def)

lemma torus_wrap_range:
  fixes p v dt W M :: real
  assumes "0 \<le> p" "p \<le> W" "\<bar>v\<bar> \<le> M" "M * \<bar>dt\<bar> \<le> W"
  shows "0 \<le> torus_wrap (p + v * dt) W \<and> torus_wrap (p + v * dt) W \<le> W"
proof -
  have "\<bar>v * dt\<bar> \<le> M * \<bar>dt\<bar>"
    using assms(3) by (simp add: abs_mult mult_right_mono)
  then have "\<bar>v * dt\<bar> \<le> W" using assms(4) by simp
  then show ?thesis
    using assms(1,2) unfolding torus_wrap_def Let_def by (auto simp: abs_le_iff)
qed

lemma contaminate_size [simp]:
  "spark_w (contaminate cfg dt w g r hp x) = spark_w (hp x)"
  "spark_h (contaminate cfg dt w g r hp x) = spark_h (hp x)"
  by (simp_all add: contaminate_def Let_def)

lemma ring_feedback_size [simp]:
  "spark_w (ring_feedback w g hp x) = spark_w (hp x)"
  "spark_h (ring_feedback w g hp x) = spark_h (hp x)"
  by (simp_all add: ring_feedback_def)

lemma transfer_energy_size [simp]:
  "spark_w (transfer_energy cfg dt w g r hp x) = spark_w (hp x)"
  "spark_h (transfer_energy cfg dt w g r hp x) = spark_h (hp x)"
  by (simp_all add: transfer_energy_def Let_def)

lemma pair_stable_box:
  "pair_stable cfg dt (\<lambda>hp. in_box (hp x) \<and> step_fits cfg (hp x))"
  by (simp add: pair_stable_def in_box_def step_fits_def)

lemma Spark_update_box:
  assumes M: "0 \<le> maxSpeed cfg" and dt: "0 \<le> dt" "dt \<le> 0.1"
    and s: "in_box s \<and> step_fits cfg s"
  shows "in_box (fst (Spark_update cfg dt time s)) \<and> step_fits cfg (fst (Spark_update cfg dt time s))"
proof -
  have "maxSpeed cfg * \<bar>dt\<bar> \<le> maxSpeed cfg * 0.1"
    using M dt by (intro mult_left_mono) simp_all
  then have fit: "maxSpeed cfg * \<bar>dt\<bar> \<le> spark_w s" "maxSpeed cfg * \<bar>dt\<bar> \<le> spark_h s"
    using s by (simp_all add: step_fits_def)
  have b: "0 \<le> spark_x s" "spark_x s \<le> spark_w s" "0 \<le> spark_y s" "spark_y s \<le> spark_h s"
    using s by (simp_all add: in_box_def)
  show ?thesis
    using torus_wrap_range [OF b(1,2) next_velocity_bounded(1) [OF M] fit(1), of dt time s]
      torus_wrap_range [OF b(3,4) next_velocity_bounded(2) [OF M] fit(2), of dt time s] s
    by (simp add: in_box_def step_fits_def Spark_update_position)
qed

lemma frame_dt_le: "frame_dt time st \<le> 0.1"
  by (simp add: frame_dt_def)

lemma new_Spark_place [simp]:
  "spark_x (new_Spark cfg rnd k t px py pw ph net) = px"
  "spark_y (new_Spark cfg rnd k t px py pw ph net) = py"
  "spark_w (new_Spark cfg rnd k t px py pw ph net) = pw"
  "spark_h (new_Spark cfg rnd k t px py pw ph net) = ph"
  by (simp_all add: new_Spark_def Let_def)

lemma spawn_coordinate:
  fixes pad r W :: real
  assumes "0 \<le> pad" "pad \<le> 1 / 2" "0 \<le> r" "r < 1" "0 \<le> W"
  shows "0 \<le> W * (pad + r * (1 - 2 * pad)) \<and> W * (pad + r * (1 - 2 * pad)) \<le> W"
proof -
  have a: "0 \<le> r * (1 - 2 * pad)"
    using assms by (intro mult_nonneg_nonneg) simp_all
  have "r * (1 - 2 * pad) \<le> 1 * (1 - 2 * pad)"
    using assms by (intro mult_right_mono) simp_all
  then have b: "pad + r * (1 - 2 * pad) \<le> 1"
    using assms by simp
  have "W * (pad + r * (1 - 2 * pad)) \<le> W * 1"
    using b assms by (intro mult_left_mono) simp_all
  moreover have "0 \<le> W * (pad + r * (1 - 2 * pad))"
    using a assms by (intro mult_nonneg_nonneg) simp_all
  ultimately show ?thesis by simp
qed

lemma spawnSpark_box_inv:
  assumes M: "0 \<le> maxSpeed cfg" and pad: "0 \<le> spawnPadding cfg" "spawnPadding cfg \<le> 1 / 2"
    and view: "maxSpeed cfg * 0.1 \<le> width st" "maxSpeed cfg * 0.1 \<le> height st"
    and rnd: "\<forall>k. 0 \<le> rnd k \<and> rnd k < 1"
    and inv: "box_inv cfg st"
  shows "box_inv cfg (spawnSpark cfg rnd now st)"
proof -
  have W: "0 \<le> width st" "0 \<le> height st"
    using M view by simp_all
  have r: "0 \<le> rnd (rng st)" "rnd (rng st) < 1" "0 \<le> rnd (rng st + 1)" "rnd (rng st + 1) < 1"
    using rnd by simp_all
  note x = spawn_coordinate [OF pad r(1,2) W(1)]
  note y = spawn_coordinate [OF pad r(3,4) W(2)]
  show ?thesis
    using inv x y view by (auto simp: box_inv_def in_box_def step_fits_def spawnSpark_def Let_def)
qed

lemma spawnSpark_viewport [simp]:
  "width (spawnSpark cfg rnd now st) = width st"
  "height (spawnSpark cfg rnd now st) = height st"
  by (simp_all add: spawnSpark_def Let_def)

lemma spawn_loop_box_inv:
  "0 \<le> maxSpeed cfg \<Longrightarrow> 0 \<le> spawnPadding cfg \<Longrightarrow> spawnPadding cfg \<le> 1 / 2
   \<Longrightarrow> maxSpeed cfg * 0.1 \<le> width st \<Longrightarrow> maxSpeed cfg * 0.1 \<le> height st
   \<Longrightarrow> \<forall>k. 0 \<le> rnd k \<and> rnd k < 1 \<Longrightarrow> box_inv cfg st
   \<Longrightarrow> box_inv cfg (spawn_loop cfg rnd now st)"
proof (induction cfg rnd now st rule: spawn_loop.induct)
  case (1 cfg rnd now st)
  show ?case
  proof (cases "spawnAccumulator st \<ge> 1")
    case False
    then show ?thesis using "1.prems" by (subst spawn_loop.simps) simp
  next
    case True
    define st1 where "st1 = spawnSpark cfg rnd now st"
    define st2 where "st2 = st1\<lparr> spawnAccumulator := spawnAccumulator st1 - 1 \<rparr>"
    have eq: "spawn_loop cfg rnd now st = spawn_loop cfg rnd now st2"
      using True by (subst spawn_loop.simps) (simp add: st1_def st2_def Let_def)
    have "box_inv cfg st1"
      unfolding st1_def using "1.prems" by (intro spawnSpark_box_inv)
    then have inv: "box_inv cfg st2"
      by (simp add: st2_def box_inv_def)
    have view: "maxSpeed cfg * 0.1 \<le> width st2" "maxSpeed cfg * 0.1 \<le> height st2"
      using "1.prems"(4,5) by (simp_all add: st2_def st1_def)
    from "1.IH" [OF True st1_def, folded st2_def, OF "1.prems"(1,2,3) view "1.prems"(6) inv]
    show ?thesis
      unfolding eq .
  qed
qed

text \<open>
  Claim C4, as the code has it. Every spark of the system lies in the closed box
  \<open>[0, w] \<times> [0, h]\<close> of the viewport size it was created with: \<^verbatim>\<open>spawnSpark\<close> puts
  it there, the update calls of a frame keep it there, and so does the rest of the
  frame, when the frame's timestamp is not before the previous one and the viewport
  is at least as wide and as high as the longest step of a frame, \<open>maxSpeed \<cdot> 0.1\<close>
  (2 pixels in the shipped configuration). The wrap leaves no coordinate below 0 or
  above its bound, but a coordinate equal to the bound is not wrapped: the test is
  \<^verbatim>\<open>this.x > this.w\<close>.
\<close>

theorem C4_position_in_closed_box:
  assumes "0 \<le> maxSpeed cfg"
    and "0 \<le> spawnPadding cfg" and "spawnPadding cfg \<le> 1 / 2"
    and "maxSpeed cfg * 0.1 \<le> width st" and "maxSpeed cfg * 0.1 \<le> height st"
    and "\<forall>k. 0 \<le> rnd k \<and> rnd k < 1"
    and "lastTime st \<le> time"
    and "box_inv cfg st"
  shows "box_inv cfg (spawnSpark cfg rnd now st)
       \<and> box_inv cfg (cull_phase cfg rnd now time st)
       \<and> box_inv cfg (SparkSystem_update cfg rnd now time st)"
proof -
  let ?dt = "frame_dt time st"
  let ?st3 = "spawn_phase cfg rnd now time st"
  let ?st5 = "cull_phase cfg rnd now time st"
  have dt: "0 \<le> ?dt" "?dt \<le> 0.1"
    using assms(7) by (rule frame_dt_nonneg) (rule frame_dt_le)
  have "box_inv cfg (st\<lparr> lastTime := time,
            spawnAccumulator := spawnAccumulator st + spawnRatePerSec cfg * ?dt \<rparr>)"
    using assms(8) by (simp add: box_inv_def)
  then have inv3: "box_inv cfg ?st3"
    unfolding spawn_phase_def using assms(1-6) by (intro spawn_loop_box_inv) simp_all
  have inv5: "in_box (heap ?st5 x) \<and> step_fits cfg (heap ?st5 x)" if "x \<in> set (sparks ?st5)" for x
  proof -
    have "x \<in> set (sparks ?st3)"
      using that update_sparks_subset [of cfg ?dt time "sparks ?st3" "heap ?st3"]
      by (auto simp: cull_phase_fields)
    then have "in_box (heap ?st3 x) \<and> step_fits cfg (heap ?st3 x)"
      using inv3 by (simp add: box_inv_def)
    then show ?thesis
      unfolding cull_phase_fields
      by (rule update_sparks_preserves
          [where Q = "\<lambda>hp. in_box (hp x) \<and> step_fits cfg (hp x)", rotated])
        (use Spark_update_box [OF assms(1) dt] in auto)
  qed
  have "in_box (f_heap (run_pass cfg rnd ?dt ?st5) x) \<and> step_fits cfg (f_heap (run_pass cfg rnd ?dt ?st5) x)"
    if "x \<in> set (sparks ?st5)" for x
    by (rule run_pass_preserves [OF pair_stable_box inv5 [OF that]])
  then have "box_inv cfg (SparkSystem_update cfg rnd now time st)"
    by (simp add: box_inv_def update_heap)
  moreover have "box_inv cfg (spawnSpark cfg rnd now st)"
    by (intro spawnSpark_box_inv assms)
  moreover have "box_inv cfg ?st5"
    using inv5 by (simp add: box_inv_def del: cull_phase_fields)
  ultimately show ?thesis
    by blast
qed

text \<open>A frame in which a spark wraps: at the time 100, a tenth of a second after the
  previous frame, spark 0 of \<open>wrap_system\<close> has a horizontal velocity between
  \<open>- 5 \<cdot> 0.97\<^sup>6\<close> and \<open>- 3 \<cdot> 0.97\<^sup>6\<close>, whatever the drift, and leaves the box on the
  left; the wrap adds the width.\<close>

lemma update_sparks_at:
  "distinct ss \<Longrightarrow>
   snd (update_sparks cfg dt time ss hp) r
     = (if r \<in> set ss then fst (Spark_update cfg dt time (hp r)) else hp r)"
proof (induction ss arbitrary: hp)
  case Nil
  then show ?case by simp
next
  case (Cons s ss)
  then show ?case
    by (simp add: split_beta Let_def)
qed

lemma spawn_phase_idle:
  assumes "spawnAccumulator st + spawnRatePerSec cfg * frame_dt time st < 1"
  shows "spawn_phase cfg rnd now time st
     = st\<lparr> lastTime := time,
           spawnAccumulator := spawnAccumulator st + spawnRatePerSec cfg * frame_dt time st \<rparr>"
  unfolding spawn_phase_def using assms by (subst spawn_loop.simps) simp

lemma wrap_system_box_inv: "box_inv CONFIG wrap_system"
  by (simp add: box_inv_def in_box_def step_fits_def wrap_system_def example_system_def
      example_store_def wrap_spark_def spark0_def spark1_def spark2_def CONFIG_def)

lemma Math_hypot_le:
  assumes "\<bar>a\<bar> \<le> A" and "\<bar>b\<bar> \<le> B" and "A * A + B * B \<le> M * M" and "0 \<le> M"
  shows "Math_hypot a b \<le> M"
proof -
  have sq: "c * c \<le> C * C" if "\<bar>c\<bar> \<le> C" for c C :: real
  proof -
    have "\<bar>c\<bar> * \<bar>c\<bar> \<le> C * C"
      using that by (intro mult_mono) simp_all
    then show ?thesis by simp
  qed
  have "a * a + b * b \<le> M\<^sup>2"
    using sq [OF assms(1)] sq [OF assms(2)] assms(3) by (simp add: power2_eq_square)
  then show ?thesis
    unfolding Math_hypot_def using assms(4) by (intro real_le_lsqrt) simp_all
qed

lemma wrap_velocity:
  "- 5 \<le> fst (next_velocity CONFIG (1 / 10) 100 wrap_spark)"
  "fst (next_velocity CONFIG (1 / 10) 100 wrap_spark) \<le> - 2"
proof -
  define f :: real where "f = 832972004929 / 1000000000000"
  define sx where "sx = sin (100 * 0.001 + seedFeature wrap_spark * 10)"
  define cy where "cy = cos (100 * 0.0012 + seedFeature wrap_spark * 7)"
  define vx1 where "vx1 = (- 4 + sx) * f"
  define vy1 where "vy1 = cy * f"
  have pow: "Math_pow (damping CONFIG) (1 / 10 * 60) = f"
    by (simp add: Math_pow_def CONFIG_def powr_numeral power_divide f_def)
  have sx: "- 1 \<le> sx" "sx \<le> 1" and cy: "- 1 \<le> cy" "cy \<le> 1"
    by (simp_all add: sx_def cy_def)
  have f: "0 \<le> f" "f \<le> 1"
    by (simp_all add: f_def)
  have "(- 5) * f \<le> (- 4 + sx) * f" "(- 4 + sx) * f \<le> (- 3) * f"
    using sx f(1) by (intro mult_right_mono; simp)+
  then have vx: "- 5 \<le> vx1" "vx1 \<le> - 2"
    by (simp_all add: vx1_def f_def)
  have "(- 1) * f \<le> cy * f" "cy * f \<le> 1 * f"
    using cy f(1) by (intro mult_right_mono; simp)+
  then have vy: "\<bar>vy1\<bar> \<le> 1"
    using f(2) by (simp add: vy1_def abs_le_iff)
  have "Math_hypot vx1 vy1 \<le> 20"
    using vx vy by (intro Math_hypot_le [where A = 5 and B = 1]) simp_all
  then have "fst (next_velocity CONFIG (1 / 10) 100 wrap_spark) = vx1"
    unfolding next_velocity_def Let_def pow
    by (simp add: wrap_spark_def spark0_def CONFIG_def vx1_def vy1_def sx_def cy_def)
  with vx show "- 5 \<le> fst (next_velocity CONFIG (1 / 10) 100 wrap_spark)"
    "fst (next_velocity CONFIG (1 / 10) 100 wrap_spark) \<le> - 2"
    by simp_all
qed

lemma wrap_system_frame:
  "1919 < spark_x (heap (SparkSystem_update CONFIG (\<lambda>_. 0.5) (\<lambda>_. 0) 100 wrap_system) 0)"
proof -
  let ?st3 = "spawn_phase CONFIG (\<lambda>_. 0.5) (\<lambda>_. 0) 100 wrap_system"
  define v where "v = fst (next_velocity CONFIG (1 / 10) 100 wrap_spark)"
  have dt: "frame_dt 100 wrap_system = 1 / 10"
    by (simp add: frame_dt_def wrap_system_def example_system_def)
  have "spawnAccumulator wrap_system + spawnRatePerSec CONFIG * frame_dt 100 wrap_system < 1"
    unfolding dt by (simp add: wrap_system_def example_system_def CONFIG_def)
  then have st3: "sparks ?st3 = [0, 1, 2]" "heap ?st3 0 = wrap_spark"
    by (simp_all add: spawn_phase_idle wrap_system_def example_system_def)
  have "heap (cull_phase CONFIG (\<lambda>_. 0.5) (\<lambda>_. 0) 100 wrap_system) 0
      = snd (update_sparks CONFIG (1 / 10) 100 [0, 1, 2] (heap ?st3)) 0"
    unfolding cull_phase_fields dt st3(1) ..
  also have "\<dots> = fst (Spark_update CONFIG (1 / 10) 100 (heap ?st3 0))"
    by (subst update_sparks_at) simp_all
  finally have "spark_x (heap (cull_phase CONFIG (\<lambda>_. 0.5) (\<lambda>_. 0) 100 wrap_system) 0)
      = spark_x (fst (Spark_update CONFIG (1 / 10) 100 wrap_spark))"
    unfolding st3(2) by (rule arg_cong)
  also have "\<dots> = torus_wrap (1 / 10 + v * (1 / 10)) 1920"
    by (simp add: Spark_update_position v_def wrap_spark_def spark0_def)
  also have "\<dots> = 1 / 10 + v * (1 / 10) + 1920"
    using wrap_velocity by (simp add: torus_wrap_def v_def)
  finally show ?thesis
    using wrap_velocity(1) by (simp add: update_heap run_pass_position v_def del: cull_phase_fields)
qed

theorem C4_position_in_closed_box_witness:
  "0 \<le> maxSpeed CONFIG \<and> 0 \<le> spawnPadding CONFIG \<and> spawnPadding CONFIG \<le> 1 / 2
   \<and> maxSpeed CONFIG * 0.1 \<le> width wrap_system \<and> maxSpeed CONFIG * 0.1 \<le> height wrap_system
   \<and> (\<forall>k. (0::real) \<le> (\<lambda>_. 0.5) k \<and> (\<lambda>_. 0.5) k < (1::real))
   \<and> lastTime wrap_system \<le> 100
   \<and> box_inv CONFIG wrap_system
   \<and> spark_x (heap wrap_system 0) = 0.1
   \<and> 1919 < spark_x (heap (SparkSystem_update CONFIG (\<lambda>_. 0.5) (\<lambda>_. 0) 100 wrap_system) 0)
   \<and> box_inv CONFIG (spawnSpark CONFIG (\<lambda>_. 0.5) (\<lambda>_. 0) wrap_system)
   \<and> box_inv CONFIG (cull_phase CONFIG (\<lambda>_. 0.5) (\<lambda>_. 0) 100 wrap_system)
   \<and> box_inv CONFIG (SparkSystem_update CONFIG (\<lambda>_. 0.5) (\<lambda>_. 0) 100 wrap_system)"
proof -
  have c: "0 \<le> maxSpeed CONFIG" "0 \<le> spawnPadding CONFIG" "spawnPadding CONFIG \<le> 1 / 2"
    "maxSpeed CONFIG * 0.1 \<le> width wrap_system" "maxSpeed CONFIG * 0.1 \<le> height wrap_system"
    by (simp_all add: CONFIG_def wrap_system_def example_system_def)
  have r: "\<forall>k. (0::real) \<le> (\<lambda>_. 0.5) k \<and> (\<lambda>_. 0.5) k < (1::real)"
    by simp
  have t: "lastTime wrap_system \<le> 100"
    by (simp add: wrap_system_def example_system_def)
  have x: "spark_x (heap wrap_system 0) = 0.1"
    by (simp add: wrap_system_def example_system_def wrap_spark_def)
  note inst = C4_position_in_closed_box [OF c r t wrap_system_box_inv, of "\<lambda>_. 0"]
  with c r t x wrap_system_box_inv wrap_system_frame show ?thesis
    by blast
qed

lemma rnd_edge_range: "0 \<le> rnd_edge k \<and> rnd_edge k < 1"
  using pi_ge_two pi_less_4 by (simp add: rnd_edge_def)

lemma edge_system_fields:
  "sparks edge_system = [0]"
  "lastTime edge_system = 1000"
  "spawnAccumulator edge_system = 0"
  "spark_x (heap edge_system 0) = 1919.9375"
  "spark_y (heap edge_system 0) = 540"
  "spark_w (heap edge_system 0) = 1920"
  "spark_h (heap edge_system 0) = 1080"
  "vx (heap edge_system 0) = 375 / 97"
  "vy (heap edge_system 0) = 0"
  "seedFeature (heap edge_system 0) = (pi - 61 / 60) / 10"
  "birth (heap edge_system 0) = 1000"
  "lifetime (heap edge_system 0) = 9000"
  by (simp_all add: edge_system_def empty_system_def example_system_def spawnSpark_def
      new_Spark_def rnd_edge_def CONFIG_def lerp_def Let_def)

lemma edge_velocity: "fst (next_velocity CONFIG (1 / 60) (3050 / 3) (heap edge_system 0)) = 15 / 4"
proof -
  define cy where "cy = cos (3050 / 3 * 0.0012 + seedFeature (heap edge_system 0) * 7)"
  define vy1 where "vy1 = cy * 10 * (1 / 60) * (97 / 100)"
  have "3050 / 3 * 0.001 + seedFeature (heap edge_system 0) * 10 = pi"
    by (simp add: edge_system_fields field_simps)
  then have sx: "sin (3050 / 3 * 0.001 + seedFeature (heap edge_system 0) * 10) = 0"
    by (simp only: sin_pi)
  have pow: "Math_pow (damping CONFIG) (1 / 60 * 60) = 97 / 100"
    by (simp add: Math_pow_def CONFIG_def)
  have "- 1 \<le> cy" "cy \<le> 1"
    by (simp_all add: cy_def)
  then have vy: "\<bar>vy1\<bar> \<le> 1"
    by (simp add: vy1_def abs_le_iff)
  have "Math_hypot (15 / 4) vy1 \<le> 20"
    using vy by (intro Math_hypot_le [where A = "15 / 4" and B = 1]) simp_all
  then show ?thesis
    unfolding next_velocity_def Let_def pow sx
    by (simp add: edge_system_fields CONFIG_def vy1_def cy_def)
qed

text \<open>
  Claim C4 as stated fails on the upper bound. The spark that \<^verbatim>\<open>spawnSpark\<close> makes
  from the values \<open>rnd_edge\<close> is inside the half-open box at \<open>x = 1919.9375\<close> with
  the velocity \<open>(375/97, 0)\<close>. The next frame, at the time \<open>3050/3\<close>, has
  \<open>dt = 1/60\<close>; the horizontal drift is \<open>sin \<pi> \<cdot> 10 = 0\<close>, the damping takes the
  horizontal velocity to \<open>3.75\<close>, the speed stays below \<open>maxSpeed\<close>, and the spark
  moves by \<open>3.75/60 = 0.0625\<close> to \<open>x = 1920\<close>, the width itself, where the wrap
  leaves it: at the end of the frame the spark is in the list with \<open>x = w\<close>.
\<close>

theorem C4_position_reaches_bound:
  "(\<forall>k. 0 \<le> rnd_edge k \<and> rnd_edge k < 1)
   \<and> sparks edge_system = [0]
   \<and> \<bar>vx (heap edge_system 0)\<bar> < 5 \<and> \<bar>vy (heap edge_system 0)\<bar> < 5
   \<and> 0 \<le> spark_x (heap edge_system 0)
   \<and> spark_x (heap edge_system 0) < spark_w (heap edge_system 0)
   \<and> 0 \<le> spark_y (heap edge_system 0)
   \<and> spark_y (heap edge_system 0) < spark_h (heap edge_system 0)
   \<and> lastTime edge_system \<le> 3050 / 3
   \<and> sparks (SparkSystem_update CONFIG rnd_edge (\<lambda>_. 1000) (3050 / 3) edge_system) = [0]
   \<and> spark_x (heap (SparkSystem_update CONFIG rnd_edge (\<lambda>_. 1000) (3050 / 3) edge_system) 0)
       = 1920
   \<and> spark_w (heap (SparkSystem_update CONFIG rnd_edge (\<lambda>_. 1000) (3050 / 3) edge_system) 0)
       = 1920"
proof -
  let ?st3 = "spawn_phase CONFIG rnd_edge (\<lambda>_. 1000) (3050 / 3) edge_system"
  let ?st5 = "cull_phase CONFIG rnd_edge (\<lambda>_. 1000) (3050 / 3) edge_system"
  let ?st' = "SparkSystem_update CONFIG rnd_edge (\<lambda>_. 1000) (3050 / 3) edge_system"
  have dt: "frame_dt (3050 / 3) edge_system = 1 / 60"
    by (simp add: frame_dt_def edge_system_fields)
  have "spawnAccumulator edge_system + spawnRatePerSec CONFIG * frame_dt (3050 / 3) edge_system < 1"
    unfolding dt by (simp add: edge_system_fields CONFIG_def)
  then have st3: "sparks ?st3 = [0]" "heap ?st3 0 = heap edge_system 0"
    by (simp_all add: spawn_phase_idle edge_system_fields)
  have alive: "sparks ?st5 = [0]"
    unfolding cull_phase_fields dt st3(1)
    by (simp add: split_beta st3(2) edge_system_fields)
  have "heap ?st5 0 = snd (update_sparks CONFIG (1 / 60) (3050 / 3) [0] (heap ?st3)) 0"
    unfolding cull_phase_fields dt st3(1) ..
  also have "\<dots> = fst (Spark_update CONFIG (1 / 60) (3050 / 3) (heap ?st3 0))"
    by (subst update_sparks_at) simp_all
  finally have st5: "heap ?st5 0 = fst (Spark_update CONFIG (1 / 60) (3050 / 3) (heap edge_system 0))"
    unfolding st3(2) .
  have x: "spark_x (heap ?st5 0) = 1920"
    unfolding st5 by (simp add: Spark_update_position edge_velocity)
      (simp add: edge_system_fields torus_wrap_def)
  have w: "spark_w (heap ?st5 0) = 1920"
    unfolding st5 by (simp add: Spark_update_position edge_system_fields)
  have "spark_w (f_heap (run_pass CONFIG rnd_edge (1 / 60) ?st5) 0) = spark_w (heap ?st5 0)"
    by (rule run_pass_preserves [where Q = "\<lambda>hp. spark_w (hp 0) = spark_w (heap ?st5 0)"])
      (simp_all add: pair_stable_def)
  then have "spark_x (heap ?st' 0) = 1920" "spark_w (heap ?st' 0) = 1920" "sparks ?st' = [0]"
    unfolding update_heap dt using x w alive
    by (simp_all add: run_pass_position del: cull_phase_fields)
  then show ?thesis
    using rnd_edge_range by (simp add: edge_system_fields)
qed

subsection \<open>The neighbour query on the rebuilt grid\<close>

lemma grid_insert_cellSize [simp]: "cellSize (grid_insert hp s g) = cellSize g"
  by (simp add: grid_insert_def Let_def)

lemma cell_of_grid_insert [simp]: "cell_of hp (grid_insert hp' s' g) s = cell_of hp g s"
  by (simp add: cell_of_def getKey_def)

lemma cell_of_grid_clear [simp]: "cell_of hp (grid_clear g) s = cell_of hp g s"
  by (simp add: cell_of_def getKey_def grid_clear_def)

lemma grid_insert_cells:
  "cells (grid_insert hp s g) k =
     (if cell_of hp g s = k
      then Some ((case cells g k of None \<Rightarrow> [] | Some c \<Rightarrow> c) @ [s])
      else cells g k)"
  by (auto simp: grid_insert_def cell_of_def Let_def)

lemma fold_grid_insert_cells:
  "cells (fold (grid_insert hp) ss g) k =
     (let new = filter (\<lambda>s. cell_of hp g s = k) ss
      in case cells g k of
           None \<Rightarrow> (if new = [] then None else Some new)
         | Some c \<Rightarrow> Some (c @ new))"
proof (induction ss arbitrary: g)
  case Nil
  then show ?case by (simp split: option.split)
next
  case (Cons s ss)
  show ?case
    by (simp add: Cons.IH grid_insert_cells Let_def split: option.split)
qed

lemma rebuild_grid_cells:
  "cells (rebuild_grid hp ss g) k =
     (let new = filter (\<lambda>s. cell_of hp g s = k) ss in if new = [] then None else Some new)"
  by (simp add: rebuild_grid_def fold_grid_insert_cells Let_def)
    (simp add: grid_clear_def)

lemma fold_grid_insert_cellSize: "cellSize (fold (grid_insert hp) ss g) = cellSize g"
  by (induction ss arbitrary: g) simp_all

lemma rebuild_grid_cellSize [simp]: "cellSize (rebuild_grid hp ss g) = cellSize g"
  by (simp add: rebuild_grid_def fold_grid_insert_cellSize grid_clear_def)

lemma rebuilt_cell_lookup:
  "(case cells (rebuild_grid hp ss g) k of
      None \<Rightarrow> []
    | Some cell \<Rightarrow> filter (\<lambda>other. other \<noteq> p) cell) = cell_neighbors hp g ss p k"
  by (cases "filter (\<lambda>s. cell_of hp g s = k) ss = []")
    (simp_all add: rebuild_grid_cells cell_neighbors_def Let_def del: filter_filter)

lemma getNeighbors_rebuilt:
  "getNeighbors hp' (rebuild_grid hp ss g) p =
     concat (map (cell_neighbors hp g ss p)
       (block_keys \<lfloor>spark_x (hp' p) / cellSize (rebuild_grid hp ss g)\<rfloor>
                   \<lfloor>spark_y (hp' p) / cellSize (rebuild_grid hp ss g)\<rfloor>))"
  by (simp add: getNeighbors_def rebuilt_cell_lookup Let_def block_keys_def)

lemma distinct_concat_map:
  assumes "distinct ks" and "\<And>k. distinct (f k)"
    and "\<And>k k'. k \<noteq> k' \<Longrightarrow> set (f k) \<inter> set (f k') = {}"
  shows "distinct (concat (map f ks))"
  using assms(1)
proof (induction ks)
  case Nil
  then show ?case by simp
next
  case (Cons k ks)
  have "set (f k) \<inter> set (f k') = {}" if "k' \<in> set ks" for k'
    using that Cons.prems assms(3) [of k k'] by auto
  then show ?case
    using Cons assms(2) by auto
qed

lemma distinct_block_keys: "distinct (block_keys col row)"
  by (simp add: block_keys_def)

text \<open>
  Claim C10. The grid, of a cell size other than 0, is rebuilt from a list of sparks
  without repetition (each spark is inserted once). Then the neighbour query for a
  spark \<open>p\<close> returns a list that does not contain \<open>p\<close>, has no duplicates, and holds
  only sparks of the list.
\<close>

theorem C10_neighbors_distinct:
  assumes "distinct ss" and "cellSize g \<noteq> 0"
  shows "let ns = getNeighbors hp' (rebuild_grid hp ss g) p
         in p \<notin> set ns \<and> distinct ns \<and> set ns \<subseteq> set ss"
proof -
  define ks where "ks = block_keys \<lfloor>spark_x (hp' p) / cellSize (rebuild_grid hp ss g)\<rfloor>
                   \<lfloor>spark_y (hp' p) / cellSize (rebuild_grid hp ss g)\<rfloor>"
  have ns: "getNeighbors hp' (rebuild_grid hp ss g) p = concat (map (cell_neighbors hp g ss p) ks)"
    unfolding ks_def by (rule getNeighbors_rebuilt)
  have d: "distinct (cell_neighbors hp g ss p k)" for k
    using assms(1) by (simp add: cell_neighbors_def)
  have i: "set (cell_neighbors hp g ss p k) \<inter> set (cell_neighbors hp g ss p k') = {}"
    if "k \<noteq> k'" for k k'
    using that by (auto simp: cell_neighbors_def)
  have "distinct ks"
    unfolding ks_def by (rule distinct_block_keys)
  then have 1: "distinct (concat (map (cell_neighbors hp g ss p) ks))"
    using d i by (rule distinct_concat_map)
  have 2: "p \<notin> set (concat (map (cell_neighbors hp g ss p) ks))"
    by (auto simp: cell_neighbors_def)
  have 3: "set (concat (map (cell_neighbors hp g ss p) ks)) \<subseteq> set ss"
    by (auto simp: cell_neighbors_def)
  show ?thesis
    unfolding ns Let_def using 1 2 3 by (intro conjI)
qed

lemma example_neighbors:
  "getNeighbors example_store (rebuild_grid example_store [0, 1, 2] (new_SpatialGrid 110 1920 1080)) 0
    = [2, 1]"
  by (simp add: getNeighbors_def rebuild_grid_cells Let_def cell_of_def getKey_def
      new_SpatialGrid_def example_store_def spark0_def spark1_def spark2_def)

theorem C10_neighbors_distinct_witness:
  "distinct [0::nat, 1, 2] \<and> cellSize (new_SpatialGrid 110 1920 1080) \<noteq> 0
   \<and> getNeighbors example_store
        (rebuild_grid example_store [0, 1, 2] (new_SpatialGrid 110 1920 1080)) 0 = [2, 1]
   \<and> 0 \<notin> set (getNeighbors example_store
        (rebuild_grid example_store [0, 1, 2] (new_SpatialGrid 110 1920 1080)) 0)
   \<and> distinct (getNeighbors example_store
        (rebuild_grid example_store [0, 1, 2] (new_SpatialGrid 110 1920 1080)) 0)"
proof -
  have d: "distinct [0::nat, 1, 2]" by simp
  have c: "cellSize (new_SpatialGrid 110 1920 1080) \<noteq> 0"
    by (simp add: new_SpatialGrid_def)
  from C10_neighbors_distinct [OF d c, of example_store example_store 0]
  show ?thesis
    unfolding Let_def using d c example_neighbors by blast
qed

subsection \<open>The rounding of a fading strength\<close>

lemma rne_error: "\<bar>of_int (rne t) - t\<bar> \<le> 1 / 2"
  unfolding rne_def Let_def by (auto simp: abs_le_iff)

lemma rne_le_floor: "rne t \<le> \<lfloor>t\<rfloor> + 1"
  unfolding rne_def Let_def by auto

lemma rne_of_int [simp]: "rne (of_int m) = m"
  unfolding rne_def Let_def by simp

lemma rne_numeral [simp]: "rne (numeral n) = numeral n"
  using rne_of_int [of "numeral n"] by simp

lemma binade_bounds:
  assumes "x \<noteq> 0"
  shows "2 powr of_int (binade x) \<le> \<bar>x\<bar>" and "\<bar>x\<bar> < 2 powr (of_int (binade x) + 1)"
proof -
  have pos: "0 < \<bar>x\<bar>" using assms by simp
  have "of_int (binade x) \<le> log 2 \<bar>x\<bar>"
    by (simp add: binade_def)
  then show "2 powr of_int (binade x) \<le> \<bar>x\<bar>"
    using pos by (simp add: le_log_iff)
  have "log 2 \<bar>x\<bar> < of_int (binade x) + 1"
    by (simp add: binade_def)
  then show "\<bar>x\<bar> < 2 powr (of_int (binade x) + 1)"
    using pos by (simp add: log_less_iff)
qed

lemma binade_unique:
  assumes "2 powr of_int e \<le> \<bar>x\<bar>" and "\<bar>x\<bar> < 2 powr (of_int e + 1)"
  shows "binade x = e"
proof -
  have pos: "0 < \<bar>x\<bar>"
    using assms(1) by (rule less_le_trans [rotated]) simp
  have "of_int e \<le> log 2 \<bar>x\<bar>"
    using assms(1) pos by (simp add: le_log_iff)
  moreover have "log 2 \<bar>x\<bar> < of_int e + 1"
    using assms(2) pos by (simp add: log_less_iff)
  ultimately show ?thesis
    unfolding binade_def by (intro floor_unique) simp_all
qed

lemma fl64_error: "\<bar>fl64 x - x\<bar> \<le> \<bar>x\<bar> / 2 ^ 53"
proof (cases "x = 0")
  case True
  then show ?thesis by (simp add: fl64_def)
next
  case False
  define q :: real where "q = 2 powr (of_int (binade x) - 52)"
  have q: "0 < q" by (simp add: q_def)
  have "fl64 x - x = (of_int (rne (x / q)) - x / q) * q"
    using False q by (simp add: fl64_def Let_def q_def [symmetric] algebra_simps)
  then have "\<bar>fl64 x - x\<bar> = \<bar>of_int (rne (x / q)) - x / q\<bar> * q"
    using q by (simp add: abs_mult)
  also have "\<dots> \<le> 1 / 2 * q"
    using q rne_error [of "x / q"] by (intro mult_right_mono) simp_all
  also have "\<dots> = 2 powr of_int (binade x) / 2 ^ 53"
    by (simp add: q_def powr_diff)
  also have "\<dots> \<le> \<bar>x\<bar> / 2 ^ 53"
    using binade_bounds(1) [OF False] by (simp add: divide_right_mono)
  finally show ?thesis .
qed

lemma fl64_close: "\<bar>fl64 x - x\<bar> \<le> \<bar>x\<bar>"
proof -
  have "\<bar>x\<bar> / 2 ^ 53 \<le> \<bar>x\<bar> / 1"
    by (intro divide_left_mono) simp_all
  then have "\<bar>x\<bar> / 2 ^ 53 \<le> \<bar>x\<bar>"
    by simp
  with fl64_error [of x] show ?thesis
    by (rule order_trans)
qed

lemma fl64_nonneg: "0 \<le> x \<Longrightarrow> 0 \<le> fl64 x"
  using fl64_close [of x] by simp

lemma fl64_nonpos: "x \<le> 0 \<Longrightarrow> fl64 x \<le> 0"
  using fl64_close [of x] by simp

lemma fl64_upper:
  assumes "0 < x"
  shows "fl64 x \<le> 2 powr (of_int (binade x) + 1)"
proof -
  define q :: real where "q = 2 powr (of_int (binade x) - 52)"
  have q: "0 < q" by (simp add: q_def)
  have x0: "x \<noteq> 0" using assms by simp
  have "x < 2 powr (of_int (binade x) + 1)"
    using binade_bounds(2) [OF x0] assms by simp
  also have "\<dots> = 2 ^ 53 * q"
    by (simp add: q_def powr_diff powr_add)
  finally have "x / q < 2 ^ 53"
    using q by (simp add: pos_divide_less_eq)
  then have "\<lfloor>x / q\<rfloor> < 2 ^ 53"
    by (simp add: floor_less_iff)
  then have "rne (x / q) \<le> 2 ^ 53"
    using rne_le_floor [of "x / q"] by linarith
  then have "(of_int (rne (x / q)) :: real) \<le> 2 ^ 53"
    by (metis of_int_le_iff of_int_numeral of_int_power)
  then have "of_int (rne (x / q)) * q \<le> 2 ^ 53 * q"
    using q by (intro mult_right_mono) simp_all
  then show ?thesis
    using x0 by (simp add: fl64_def Let_def q_def [symmetric]) (simp add: q_def powr_diff powr_add)
qed

lemma fl64_le_1:
  assumes "0 < x" and "x \<le> 1"
  shows "fl64 x \<le> 1"
proof (cases "x = 1")
  case True
  have "binade 1 = 0"
    by (rule binade_unique) simp_all
  then show ?thesis
    using True by (simp add: fl64_def Let_def powr_minus powr_numeral)
next
  case False
  then have lt: "x < 1" using assms by simp
  have x0: "x \<noteq> 0" using assms by simp
  have "(2::real) powr of_int (binade x) < 2 powr 0"
    using binade_bounds(1) [OF x0] assms lt by simp
  then have "real_of_int (binade x) < 0"
    by (rule powr_less_cancel) simp
  then have "binade x < 0"
    by simp
  then have "real_of_int (binade x) + 1 \<le> 0"
    by linarith
  then have "2 powr (of_int (binade x) + 1) \<le> (2::real) powr 0"
    by (intro powr_mono) simp_all
  then show ?thesis
    using fl64_upper [OF assms(1)] by simp
qed

lemma fl64_eval:
  assumes "1 / 2 ^ (n + 1) \<le> x" and "x < 1 / 2 ^ n"
  shows "fl64 x = of_int (rne (x * 2 ^ (n + 53))) / 2 ^ (n + 53)"
proof -
  have pos: "0 < x"
    using assms(1) by (rule less_le_trans [rotated]) simp
  have p1: "(2::real) powr of_int (- int (n + 1)) = 1 / 2 ^ (n + 1)"
    by (simp add: powr_minus_divide powr_realpow flip: of_nat_Suc)
  have p2: "(2::real) powr (of_int (- int (n + 1)) + 1) = 1 / 2 ^ n"
    by (simp add: powr_minus_divide powr_realpow)
  have b: "binade x = - int (n + 1)"
    using assms pos by (intro binade_unique) (simp_all only: p1 p2 abs_of_pos)
  have q: "(2::real) powr (of_int (- int (n + 1)) - 52) = 1 / 2 ^ (n + 53)"
    by (simp add: powr_minus_divide powr_realpow powr_diff power_add)
  show ?thesis
    using pos unfolding fl64_def Let_def b q by simp
qed

text \<open>One fading step of a frame takes at least \<open>4 \<cdot> dt\<close> from a strength of at
  most 1, up to three roundings of relative error \<open>2\<^sup>-\<^sup>5\<^sup>3\<close>.\<close>

lemma fading_bound:
  assumes dt: "0 \<le> dt" "dt \<le> 0.1" and s: "s \<le> 1" and pos: "0 < fading dt s"
  shows "fading dt s \<le> s - 4 * dt + 3 / 2 ^ 53" and "fading dt s \<le> 1"
proof -
  define u :: real where "u = 1 / 2 ^ 53"
  define d where "d = fl64 dt"
  define a where "a = fl64 (4 * d)"
  define x where "x = s - a"
  have u: "0 \<le> u" "u \<le> 1"
    by (simp_all add: u_def)
  have err: "\<bar>fl64 y - y\<bar> \<le> \<bar>y\<bar> * u" for y
    using fl64_error [of y] by (simp add: u_def)
  have f: "fading dt s = fl64 x"
    by (simp add: fading_def x_def a_def d_def)
  have d0: "0 \<le> d"
    unfolding d_def using dt(1) by (rule fl64_nonneg)
  have "dt * u \<le> (1 / 10) * u"
    using dt(2) u(1) by (intro mult_right_mono) simp_all
  moreover have "\<bar>d - dt\<bar> \<le> dt * u"
    using err [of dt] dt(1) by (simp add: d_def)
  ultimately have d1: "dt - (1 / 10) * u \<le> d" "d \<le> dt + (1 / 10) * u"
    by linarith+
  have "(1 / 10) * u \<le> (1 / 10) * 1"
    using u by (intro mult_left_mono) simp_all
  then have d2: "d \<le> 1 / 5"
    using d1(2) dt(2) by simp
  have a0: "0 \<le> a"
    unfolding a_def using d0 by (intro fl64_nonneg) simp
  have "(4 * d) * u \<le> (4 / 5) * u"
    using d2 u(1) by (intro mult_right_mono) simp_all
  moreover have "\<bar>a - 4 * d\<bar> \<le> (4 * d) * u"
    using err [of "4 * d"] d0 by (simp add: a_def)
  ultimately have a1: "4 * dt - (6 / 5) * u \<le> a"
    using d1(1) by linarith
  have x0: "0 < x"
  proof (rule ccontr)
    assume "\<not> 0 < x"
    then have "fl64 x \<le> 0" by (intro fl64_nonpos) simp
    then show False using pos f by simp
  qed
  have x1: "x \<le> 1"
    using s a0 by (simp add: x_def)
  have "x * u \<le> 1 * u"
    using x1 u(1) by (intro mult_right_mono) simp_all
  moreover have "\<bar>fl64 x - x\<bar> \<le> x * u"
    using err [of x] x0 by simp
  ultimately have "fl64 x \<le> s - 4 * dt + 3 * u"
    using a1 u(1) unfolding x_def by linarith
  then show "fading dt s \<le> s - 4 * dt + 3 / 2 ^ 53"
    by (simp add: f u_def)
  show "fading dt s \<le> 1"
    unfolding f using x0 x1 by (rule fl64_le_1)
qed

subsection \<open>Frames with the interaction cap at 0\<close>

lemma run_pass_cap_0:
  assumes "maxInteractionsPerFrame cfg = 0"
  shows "run_pass cfg rnd dt st = start_frame st"
  using assms by (cases "sparks st") (simp_all add: run_pass_def)

lemma spawnSpark_connections [simp]:
  "connections (spawnSpark cfg rnd now st) = connections st"
  "lastTime (spawnSpark cfg rnd now st) = lastTime st"
  "flowParticles (spawnSpark cfg rnd now st) = flowParticles st"
  by (simp_all add: spawnSpark_def Let_def)

lemma spawn_loop_connections:
  "connections (spawn_loop cfg rnd now st) = connections st
   \<and> lastTime (spawn_loop cfg rnd now st) = lastTime st
   \<and> flowParticles (spawn_loop cfg rnd now st) = flowParticles st"
proof (induction cfg rnd now st rule: spawn_loop.induct)
  case (1 cfg rnd now st)
  show ?case
  proof (cases "spawnAccumulator st \<ge> 1")
    case False
    then show ?thesis by (subst (1 2 3) spawn_loop.simps) simp
  next
    case True
    define st1 where "st1 = spawnSpark cfg rnd now st"
    define st2 where "st2 = st1\<lparr> spawnAccumulator := spawnAccumulator st1 - 1 \<rparr>"
    have eq: "spawn_loop cfg rnd now st = spawn_loop cfg rnd now st2"
      using True by (subst spawn_loop.simps) (simp add: st1_def st2_def Let_def)
    show ?thesis
      unfolding eq using "1.IH" [OF True st1_def, folded st2_def]
      by (simp add: st2_def st1_def)
  qed
qed

lemma spawn_phase_connections [simp]:
  "connections (spawn_phase cfg rnd now time st) = connections st"
  "lastTime (spawn_phase cfg rnd now time st) = time"
  "flowParticles (spawn_phase cfg rnd now time st) = flowParticles st"
  by (simp_all add: spawn_phase_def spawn_loop_connections)

lemma update_lastTime [simp]: "lastTime (SparkSystem_update cfg rnd now time st) = time"
  by (simp add: SparkSystem_update_phases Let_def processInteractions_def cull_phase_def)

lemma update_connections:
  "connections (SparkSystem_update cfg rnd now time st) =
     fade_out (frame_dt time st)
       (activeConnections (run_pass cfg rnd (frame_dt time st) (cull_phase cfg rnd now time st)))
       (f_connections (run_pass cfg rnd (frame_dt time st) (cull_phase cfg rnd now time st)))"
  by (simp add: SparkSystem_update_phases Let_def)

lemma update_connections_cap_0:
  assumes "maxInteractionsPerFrame cfg = 0"
  shows "connections (SparkSystem_update cfg rnd now time st) =
     fade_out (frame_dt time st) {}
       (purge_dead (set (sparks (cull_phase cfg rnd now time st))) (connections st))"
  by (simp add: update_connections run_pass_cap_0 [OF assms])

lemma purge_dead_Some: "purge_dead alive conns k = Some c \<Longrightarrow> conns k = Some c"
  by (auto simp: purge_dead_def split: option.splits if_splits)

lemma fade_out_Some:
  assumes "fade_out dt {} conns k = Some c"
  shows "\<exists>c0. conns k = Some c0 \<and> c = c0\<lparr> strength := fading dt (strength c0) \<rparr>
           \<and> 0 < strength c"
  using assms by (auto simp: fade_out_def fading_def Let_def split: option.splits if_splits)

lemma frame_cap_0:
  assumes "maxInteractionsPerFrame cfg = 0"
    and "connections (SparkSystem_update cfg rnd now time st) k = Some c"
  shows "\<exists>c0. connections st k = Some c0
           \<and> strength c = fading (frame_dt time st) (strength c0) \<and> 0 < strength c"
  using assms(2) unfolding update_connections_cap_0 [OF assms(1)]
  by (auto dest!: fade_out_Some purge_dead_Some)

lemma frames_cap_0:
  assumes cap: "maxInteractionsPerFrame cfg = 0"
  shows "sorted (lastTime st # stamps) \<Longrightarrow> B \<le> 1
     \<Longrightarrow> \<forall>c. connections st k = Some c \<longrightarrow> strength c \<le> B
     \<Longrightarrow> connections (run_frames cfg rnd now stamps st) k = Some c
     \<Longrightarrow> strength c \<le> B - 4 * simulated_time (lastTime st) stamps
                          + real (length stamps) * (3 / 2 ^ 53)
         \<and> (stamps \<noteq> [] \<longrightarrow> 0 < strength c)"
proof (induction stamps arbitrary: st B)
  case Nil
  then show ?case by (simp add: run_frames_def)
next
  case (Cons t ts)
  define u :: real where "u = 3 / 2 ^ 53"
  let ?st1 = "SparkSystem_update cfg rnd now t st"
  define B1 where "B1 = min 1 (B - 4 * frame_dt t st + u)"
  have dt: "0 \<le> frame_dt t st" "frame_dt t st \<le> 0.1"
    using Cons.prems(1) by (simp_all add: frame_dt_def)
  have step: "strength c1 \<le> B1 \<and> 0 < strength c1" if "connections ?st1 k = Some c1" for c1
  proof -
    from frame_cap_0 [OF cap that] obtain c0 where c0: "connections st k = Some c0"
      "strength c1 = fading (frame_dt t st) (strength c0)" "0 < strength c1"
      by auto
    have le: "strength c0 \<le> B" "strength c0 \<le> 1"
      using Cons.prems(2,3) c0(1) by auto
    from fading_bound [OF dt le(2)] c0 le(1) show ?thesis
      by (simp add: B1_def u_def)
  qed
  have run: "connections (run_frames cfg rnd now ts ?st1) k = Some c"
    using Cons.prems(4) by (simp add: run_frames_def)
  have sorted1: "sorted (lastTime ?st1 # ts)"
    using Cons.prems(1) by simp
  have le1: "\<forall>c. connections ?st1 k = Some c \<longrightarrow> strength c \<le> B1"
    using step by blast
  have "B1 \<le> 1"
    by (simp add: B1_def)
  note IH = Cons.IH [OF sorted1 this le1 run, folded u_def]
  have pos: "0 < strength c"
  proof (cases ts)
    case Nil
    with run have "connections ?st1 k = Some c"
      by (simp add: run_frames_def)
    from step [OF this] show ?thesis ..
  next
    case (Cons t' ts')
    with IH show ?thesis by simp
  qed
  have "B1 \<le> B - 4 * frame_dt t st + u"
    by (simp add: B1_def)
  moreover have "simulated_time (lastTime st) (t # ts) = frame_dt t st + simulated_time t ts"
    by (simp add: frame_dt_def)
  moreover have "real (length (t # ts)) * u = u + real (length ts) * u"
    by (simp add: algebra_simps)
  ultimately have "strength c \<le> B - 4 * simulated_time (lastTime st) (t # ts)
      + real (length (t # ts)) * u"
    using IH by simp
  with pos show ?case
    by (simp add: u_def)
qed

text \<open>
  Claim C9, as the code has it. With \<open>maxInteractionsPerFrame = 0\<close> the interaction
  pass activates no connection and leaves the ledger as it found it, so a frame
  creates no connection. Every connection of the ledger, of strength at most 1, is
  gone after a run of frames whose timestamps do not go backwards, once the simulated
  time of the run reaches \<open>1/4\<close> second and \<open>2\<^sup>-\<^sup>5\<^sup>3\<close> second more for each of its
  frames: an inactive connection loses \<open>4 \<cdot> dt\<close> in each frame, up to the rounding of
  the product and of the difference, and is deleted at or below 0.
\<close>

theorem C9_no_interactions:
  assumes "maxInteractionsPerFrame cfg = 0"
    and "\<forall>k c. connections st k = Some c \<longrightarrow> strength c \<le> 1"
    and "sorted (lastTime st # stamps)"
    and "1 / 4 + real (length stamps) / 2 ^ 53 \<le> simulated_time (lastTime st) stamps"
  shows "activeConnections (run_pass cfg rnd dt st) = {}
       \<and> f_connections (run_pass cfg rnd dt st) = connections st
       \<and> dom (connections (SparkSystem_update cfg rnd now time st)) \<subseteq> dom (connections st)
       \<and> connections (run_frames cfg rnd now stamps st) = Map.empty"
proof -
  have "connections (run_frames cfg rnd now stamps st) k = None" for k
  proof (cases "connections (run_frames cfg rnd now stamps st) k")
    case None
    then show ?thesis .
  next
    case (Some c)
    have le: "\<forall>c. connections st k = Some c \<longrightarrow> strength c \<le> 1"
      using assms(2) by blast
    have ne: "stamps \<noteq> []"
      using assms(4) by auto
    from frames_cap_0 [OF assms(1,3) order_refl le Some] ne
    have c: "strength c \<le> 1 - 4 * simulated_time (lastTime st) stamps
                 + real (length stamps) * (3 / 2 ^ 53)" "0 < strength c"
      by simp_all
    have "4 * (1 / 4 + real (length stamps) / 2 ^ 53) \<le> 4 * simulated_time (lastTime st) stamps"
      using assms(4) by (intro mult_left_mono) simp_all
    then have "1 + real (length stamps) * (4 / 2 ^ 53) \<le> 4 * simulated_time (lastTime st) stamps"
      by (simp add: algebra_simps)
    moreover have "real (length stamps) * (3 / 2 ^ 53) \<le> real (length stamps) * (4 / 2 ^ 53)"
      by (intro mult_left_mono) simp_all
    ultimately have False
      using c by linarith
    then show ?thesis ..
  qed
  moreover have "dom (connections (SparkSystem_update cfg rnd now time st)) \<subseteq> dom (connections st)"
    using frame_cap_0 [OF assms(1)] by fastforce
  ultimately show ?thesis
    by (auto simp: run_pass_cap_0 [OF assms(1)])
qed

theorem C9_no_interactions_witness:
  "maxInteractionsPerFrame no_interactions = 0
   \<and> dom (connections example_connected) = {(0, 1)}
   \<and> strength (the (connections example_connected (0, 1))) = 1
   \<and> sorted (lastTime example_connected # [50, 100, 150, 200, 250 + 5000 / 2 ^ 53])
   \<and> simulated_time (lastTime example_connected) [50, 100, 150, 200, 250 + 5000 / 2 ^ 53]
       = 1 / 4 + real (length [50, 100, 150, 200, 250 + 5000 / 2 ^ 53 :: real]) / 2 ^ 53
   \<and> connections (run_frames no_interactions (\<lambda>_. 0.5) (\<lambda>_. 0)
        [50, 100, 150, 200, 250 + 5000 / 2 ^ 53] example_connected) = Map.empty"
proof -
  have h: "maxInteractionsPerFrame no_interactions = 0"
    "\<forall>k c. connections example_connected k = Some c \<longrightarrow> strength c \<le> 1"
    "sorted (lastTime example_connected # [50, 100, 150, 200, 250 + 5000 / 2 ^ 53])"
    by (simp_all add: no_interactions_def example_connected_def example_system_def)
  have s: "simulated_time (lastTime example_connected) [50, 100, 150, 200, 250 + 5000 / 2 ^ 53]
      = 1 / 4 + real (length [50, 100, 150, 200, 250 + 5000 / 2 ^ 53 :: real]) / 2 ^ 53"
    by (simp add: example_connected_def example_system_def)
  have e: "dom (connections example_connected) = {(0, 1)}"
    "strength (the (connections example_connected (0, 1))) = 1"
    by (simp_all add: example_connected_def)
  have "1 / 4 + real (length [50, 100, 150, 200, 250 + 5000 / 2 ^ 53 :: real]) / 2 ^ 53
      \<le> simulated_time (lastTime example_connected) [50, 100, 150, 200, 250 + 5000 / 2 ^ 53]"
    unfolding s by simp
  from C9_no_interactions [OF h this, of "\<lambda>_. 0.5" 0 "\<lambda>_. 0" 0] h s e show ?thesis
    by blast
qed

lemma store_updates_lifespan [simp]:
  "birth (transfer_energy cfg dt w g r hp x) = birth (hp x)"
  "lifetime (transfer_energy cfg dt w g r hp x) = lifetime (hp x)"
  "birth (ring_feedback w g hp x) = birth (hp x)"
  "lifetime (ring_feedback w g hp x) = lifetime (hp x)"
  "birth (contaminate cfg dt w g r hp x) = birth (hp x)"
  "lifetime (contaminate cfg dt w g r hp x) = lifetime (hp x)"
  by (simp_all add: transfer_energy_def ring_feedback_def contaminate_def Let_def)

lemma update_lifespan:
  assumes "x < sparkIdCounter st"
  shows "birth (heap (SparkSystem_update cfg rnd now time st) x) = birth (heap st x)
       \<and> lifetime (heap (SparkSystem_update cfg rnd now time st) x) = lifetime (heap st x)"
proof -
  let ?st3 = "spawn_phase cfg rnd now time st"
  let ?st5 = "cull_phase cfg rnd now time st"
  have "birth (heap ?st5 x) = birth (heap ?st3 x) \<and> lifetime (heap ?st5 x) = lifetime (heap ?st3 x)"
    unfolding cull_phase_fields
    by (rule update_sparks_preserves
        [where Q = "\<lambda>hp. birth (hp x) = birth (heap ?st3 x) \<and> lifetime (hp x) = lifetime (heap ?st3 x)"])
      auto
  then have "birth (heap ?st5 x) = birth (heap st x) \<and> lifetime (heap ?st5 x) = lifetime (heap st x)"
    using assms by (simp add: spawn_phase_old)
  then show ?thesis
    unfolding update_heap
    by (rule run_pass_preserves
        [where Q = "\<lambda>hp. birth (hp x) = birth (heap st x) \<and> lifetime (hp x) = lifetime (heap st x)", rotated])
      (simp add: pair_stable_def)
qed

lemma update_sparks_keeps:
  "x \<in> set ss \<Longrightarrow> time - birth (hp x) < lifetime (hp x)
   \<Longrightarrow> x \<in> set (fst (update_sparks cfg dt time ss hp))"
proof (induction ss arbitrary: hp)
  case Nil
  then show ?case by simp
next
  case (Cons s ss)
  let ?hp1 = "hp(s := fst (Spark_update cfg dt time (hp s)))"
  show ?case
  proof (cases "x = s")
    case True
    then show ?thesis
      using Cons.prems(2) by (simp add: split_beta Let_def)
  next
    case False
    then have "x \<in> set ss" using Cons.prems(1) by simp
    moreover have "time - birth (?hp1 x) < lifetime (?hp1 x)"
      using Cons.prems(2) False by simp
    ultimately have "x \<in> set (fst (update_sparks cfg dt time ss ?hp1))"
      by (rule Cons.IH)
    then show ?thesis
      by (simp add: split_beta Let_def)
  qed
qed

lemma update_sparkIdCounter:
  "sparkIdCounter st \<le> sparkIdCounter (SparkSystem_update cfg rnd now time st)"
  using spawn_phase_old(1) [of st cfg rnd now time]
  by (simp add: SparkSystem_update_phases Let_def cull_phase_def)

lemma anchored_update:
  assumes "anchored st T x" and "time \<le> T"
  shows "anchored (SparkSystem_update cfg rnd now time st) T x"
proof -
  let ?st3 = "spawn_phase cfg rnd now time st"
  have x: "x \<in> set (sparks st)" "x < sparkIdCounter st" "T - birth (heap st x) < lifetime (heap st x)"
    using assms(1) by (simp_all add: anchored_def)
  have "x \<in> set (sparks ?st3)"
    using spawn_phase_old(3) [of st cfg rnd now time] x(1) by auto
  moreover have "time - birth (heap ?st3 x) < lifetime (heap ?st3 x)"
    using x(2,3) assms(2) by (simp add: spawn_phase_old)
  ultimately have "x \<in> set (sparks (SparkSystem_update cfg rnd now time st))"
    unfolding update_heap cull_phase_fields by (rule update_sparks_keeps)
  moreover have "x < sparkIdCounter (SparkSystem_update cfg rnd now time st)"
    using x(2) update_sparkIdCounter [of st cfg rnd now time] by simp
  ultimately show ?thesis
    using x(3) update_lifespan [OF x(2), of cfg rnd now time] by (simp add: anchored_def)
qed

lemma cap_0_step:
  assumes cap: "maxInteractionsPerFrame cfg = 0"
    and c: "connections st k = Some \<lparr> strength = s, conn_a = a, conn_b = b \<rparr>"
    and ab: "anchored st T a" "anchored st T b"
    and t: "time \<le> T"
    and dt: "frame_dt time st = dt"
    and s': "fading dt s = s'" "0 < s'"
  shows "connections (SparkSystem_update cfg rnd now time st) k
           = Some \<lparr> strength = s', conn_a = a, conn_b = b \<rparr>
       \<and> anchored (SparkSystem_update cfg rnd now time st) T a
       \<and> anchored (SparkSystem_update cfg rnd now time st) T b
       \<and> lastTime (SparkSystem_update cfg rnd now time st) = time"
proof -
  let ?st' = "SparkSystem_update cfg rnd now time st"
  note ab' = anchored_update [OF ab(1) t, of cfg rnd now] anchored_update [OF ab(2) t, of cfg rnd now]
  then have "a \<in> set (sparks ?st')" "b \<in> set (sparks ?st')"
    by (simp_all add: anchored_def)
  then have "a \<in> set (sparks (cull_phase cfg rnd now time st))"
    "b \<in> set (sparks (cull_phase cfg rnd now time st))"
    by (simp_all add: update_heap del: cull_phase_fields)
  then have "connections ?st' k = Some \<lparr> strength = s', conn_a = a, conn_b = b \<rparr>"
    unfolding update_connections_cap_0 [OF cap] dt
    using c s' by (simp add: fade_out_def purge_dead_def fading_def Let_def del: cull_phase_fields)
  with ab' show ?thesis
    by simp
qed

lemma double_of_50_ms: "fl64 (4 * fl64 (1 / 20)) = 3602879701896397 / 18014398509481984"
proof -
  have a: "fl64 (1 / 20) = 3602879701896397 / 72057594037927936"
    by (subst fl64_eval [where n = 4]) (simp_all add: rne_def)
  have b: "4 * (3602879701896397 / 72057594037927936 :: real)
      = 3602879701896397 / 18014398509481984"
    by simp
  have c: "fl64 (3602879701896397 / 18014398509481984)
      = 3602879701896397 / 18014398509481984"
    by (subst fl64_eval [where n = 2]) (simp_all add: rne_def)
  show ?thesis
    unfolding a b by (rule c)
qed

lemma fading_50_ms:
  "fading (1 / 20) 1 = 3602879701896397 / 4503599627370496"
  "fading (1 / 20) (3602879701896397 / 4503599627370496) = 1351079888211149 / 2251799813685248"
  "fading (1 / 20) (1351079888211149 / 2251799813685248) = 7205759403792795 / 18014398509481984"
  "fading (1 / 20) (7205759403792795 / 18014398509481984) = 1801439850948199 / 9007199254740992"
  "fading (1 / 20) (1801439850948199 / 9007199254740992) = 1 / 18014398509481984"
  unfolding fading_def
      apply (simp_all add: double_of_50_ms)
      apply (subst fl64_eval [where n = 0], simp, simp, simp add: rne_def)
     apply (subst fl64_eval [where n = 0], simp, simp, simp add: rne_def)
    apply (subst fl64_eval [where n = 1], simp, simp, simp add: rne_def)
   apply (subst fl64_eval [where n = 2], simp, simp, simp add: rne_def)
  apply (subst fl64_eval [where n = 53], simp, simp, simp add: rne_def)
  done

lemma frame_dt_50_ms: "lastTime st = t - 50 \<Longrightarrow> frame_dt t st = 1 / 20"
  by (simp add: frame_dt_def)

text \<open>
  Claim C9 as stated fails at its bound. Five frames of 50 ms have the simulated
  time \<open>1/4\<close> second. The doubles take the strength 1 of the connection through
  \<open>0.8\<close>, \<open>0.6000000000000001\<close>, \<open>0.4000000000000001\<close> and \<open>0.20000000000000007\<close> to
  \<open>2\<^sup>-\<^sup>5\<^sup>4\<close>, about \<open>5.55 \<cdot> 10\<^sup>-\<^sup>1\<^sup>7\<close>: the first difference, \<open>1 - 0.2\<close>, is a tie
  and is rounded up. The residue is above 0, so the connection is still in the
  ledger after the quarter of a second.
\<close>

theorem C9_residue_after_quarter_second:
  "maxInteractionsPerFrame no_interactions = 0
   \<and> connections example_connected (0, 1) = Some \<lparr> strength = 1, conn_a = 0, conn_b = 1 \<rparr>
   \<and> simulated_time (lastTime example_connected) [50, 100, 150, 200, 250] = 1 / 4
   \<and> connections (run_frames no_interactions (\<lambda>_. 0.5) (\<lambda>_. 0) [50, 100, 150, 200, 250]
        example_connected) (0, 1)
       = Some \<lparr> strength = 1 / 2 ^ 54, conn_a = 0, conn_b = 1 \<rparr>"
proof -
  define U where "U = SparkSystem_update no_interactions (\<lambda>_. 0.5) (\<lambda>_. 0)"
  define st1 where "st1 = U 50 example_connected"
  define st2 where "st2 = U 100 st1"
  define st3 where "st3 = U 150 st2"
  define st4 where "st4 = U 200 st3"
  define st5 where "st5 = U 250 st4"
  have cap: "maxInteractionsPerFrame no_interactions = 0"
    by (simp add: no_interactions_def)
  have c0: "connections example_connected (0, 1) = Some \<lparr> strength = 1, conn_a = 0, conn_b = 1 \<rparr>"
    by (simp add: example_connected_def)
  have a0: "anchored example_connected 250 0" "anchored example_connected 250 1"
    by (simp_all add: anchored_def example_connected_def example_system_def example_store_def
        spark0_def spark1_def)
  have t0: "lastTime example_connected = 50 - 50"
    by (simp add: example_connected_def example_system_def)
  have sim: "simulated_time (lastTime example_connected) [50, 100, 150, 200, 250] = 1 / 4"
    by (simp add: example_connected_def example_system_def)
  have 1: "connections st1 (0, 1)
        = Some \<lparr> strength = 3602879701896397 / 4503599627370496, conn_a = 0, conn_b = 1 \<rparr>
      \<and> anchored st1 250 0 \<and> anchored st1 250 1 \<and> lastTime st1 = 50"
    unfolding st1_def U_def
    by (rule cap_0_step [OF cap c0 a0 _ frame_dt_50_ms [OF t0] fading_50_ms(1)]) simp_all
  then have t1: "lastTime st1 = 100 - 50" by simp
  have 2: "connections st2 (0, 1)
        = Some \<lparr> strength = 1351079888211149 / 2251799813685248, conn_a = 0, conn_b = 1 \<rparr>
      \<and> anchored st2 250 0 \<and> anchored st2 250 1 \<and> lastTime st2 = 100"
    unfolding st2_def U_def
    by (rule cap_0_step [OF cap _ _ _ _ frame_dt_50_ms [OF t1] fading_50_ms(2)])
      (use 1 in simp_all)
  then have t2: "lastTime st2 = 150 - 50" by simp
  have 3: "connections st3 (0, 1)
        = Some \<lparr> strength = 7205759403792795 / 18014398509481984, conn_a = 0, conn_b = 1 \<rparr>
      \<and> anchored st3 250 0 \<and> anchored st3 250 1 \<and> lastTime st3 = 150"
    unfolding st3_def U_def
    by (rule cap_0_step [OF cap _ _ _ _ frame_dt_50_ms [OF t2] fading_50_ms(3)])
      (use 2 in simp_all)
  then have t3: "lastTime st3 = 200 - 50" by simp
  have 4: "connections st4 (0, 1)
        = Some \<lparr> strength = 1801439850948199 / 9007199254740992, conn_a = 0, conn_b = 1 \<rparr>
      \<and> anchored st4 250 0 \<and> anchored st4 250 1 \<and> lastTime st4 = 200"
    unfolding st4_def U_def
    by (rule cap_0_step [OF cap _ _ _ _ frame_dt_50_ms [OF t3] fading_50_ms(4)])
      (use 3 in simp_all)
  then have t4: "lastTime st4 = 250 - 50" by simp
  have 5: "connections st5 (0, 1)
        = Some \<lparr> strength = 1 / 18014398509481984, conn_a = 0, conn_b = 1 \<rparr>
      \<and> anchored st5 250 0 \<and> anchored st5 250 1 \<and> lastTime st5 = 250"
    unfolding st5_def U_def
    by (rule cap_0_step [OF cap _ _ _ _ frame_dt_50_ms [OF t4] fading_50_ms(5)])
      (use 4 in simp_all)
  have "run_frames no_interactions (\<lambda>_. 0.5) (\<lambda>_. 0) [50, 100, 150, 200, 250] example_connected
      = st5"
    by (simp add: run_frames_def st5_def st4_def st3_def st2_def st1_def U_def)
  with 5 cap c0 sim show ?thesis
    by simp
qed

subsection \<open>Expired sparks\<close>

lemma update_sparks_alive:
  "x \<in> set (fst (update_sparks cfg dt time ss hp)) \<Longrightarrow> time - birth (hp x) < lifetime (hp x)"
proof (induction ss arbitrary: hp)
  case Nil
  then show ?case by simp
next
  case (Cons s ss)
  let ?hp1 = "hp(s := fst (Spark_update cfg dt time (hp s)))"
  have same: "birth (?hp1 x) = birth (hp x)" "lifetime (?hp1 x) = lifetime (hp x)"
    by simp_all
  from Cons.prems
  have "(x = s \<and> time - birth (hp s) < lifetime (hp s))
        \<or> x \<in> set (fst (update_sparks cfg dt time ss ?hp1))"
    by (auto simp: split_beta Let_def split: if_splits)
  then show ?case
  proof
    assume "x = s \<and> time - birth (hp s) < lifetime (hp s)"
    then show ?thesis by simp
  next
    assume "x \<in> set (fst (update_sparks cfg dt time ss ?hp1))"
    then have "time - birth (?hp1 x) < lifetime (?hp1 x)"
      by (rule Cons.IH)
    then show ?thesis
      unfolding same .
  qed
qed

lemma expired_not_alive:
  assumes "lifetime s < time - birth s"
  shows "\<not> snd (Spark_update cfg dt time s)"
  using assms by simp

lemma expired_culled:
  assumes "p < sparkIdCounter st" and "lifetime (heap st p) < time - birth (heap st p)"
  shows "p \<notin> set (sparks (cull_phase cfg rnd now time st))"
proof
  assume "p \<in> set (sparks (cull_phase cfg rnd now time st))"
  then have "time - birth (heap (spawn_phase cfg rnd now time st) p)
               < lifetime (heap (spawn_phase cfg rnd now time st) p)"
    unfolding cull_phase_fields by (rule update_sparks_alive)
  then show False
    using assms by (simp add: spawn_phase_old)
qed

subsection \<open>The sparks that the connections refer to\<close>

lemma getNeighbors_in_sparks:
  "set (getNeighbors hp' (rebuild_grid hp ss g) p) \<subseteq> set ss"
  by (auto simp: getNeighbors_rebuilt cell_neighbors_def)

lemma refs_withinD:
  "refs_within S conns \<Longrightarrow> conns key = Some c \<Longrightarrow> conn_a c \<in> S \<and> conn_b c \<in> S"
  unfolding refs_within_def by blast

lemma purge_dead_refs_within: "refs_within S (purge_dead S conns)"
  by (auto simp: refs_within_def purge_dead_def split: option.splits if_splits)

lemma fade_out_refs_within: "refs_within S conns \<Longrightarrow> refs_within S (fade_out dt active conns)"
  by (auto simp: refs_within_def fade_out_def Let_def split: option.splits if_splits)

lemma interact_refs_within:
  assumes "refs_within S (f_connections fr)" "spark \<in> S" "other \<in> S"
  shows "refs_within S (f_connections (interact cfg rnd dt spark other fr))"
  using assms by (auto simp: interact_def Let_def resolve_connections refs_within_def)

lemma neighbor_loop_refs_within:
  assumes "spark \<in> S"
  shows "refs_within S (f_connections fr) \<Longrightarrow> set ns \<subseteq> S
    \<Longrightarrow> refs_within S (f_connections (neighbor_loop cfg rnd dt spark ns fr))"
proof (induction ns arbitrary: fr)
  case Nil
  then show ?case by simp
next
  case (Cons other ns)
  have "refs_within S (f_connections (interact cfg rnd dt spark other fr))"
    using Cons.prems assms by (intro interact_refs_within) simp_all
  then show ?case
    using Cons.prems by (simp add: Cons.IH)
qed

lemma spark_loop_refs_within:
  assumes nb: "\<And>hp p. set (getNeighbors hp gr p) \<subseteq> S"
  shows "refs_within S (f_connections fr) \<Longrightarrow> set ss \<subseteq> S
    \<Longrightarrow> refs_within S (f_connections (spark_loop cfg rnd dt gr ss fr))"
proof (induction ss arbitrary: fr)
  case Nil
  then show ?case by simp
next
  case (Cons spark ss)
  have "refs_within S (f_connections
          (neighbor_loop cfg rnd dt spark (getNeighbors (f_heap fr) gr spark) fr))"
    using Cons.prems nb by (intro neighbor_loop_refs_within) simp_all
  then show ?case
    using Cons.prems by (simp add: Cons.IH)
qed

lemma run_pass_refs_within:
  assumes "refs_within (set (sparks st)) (connections st)"
  shows "refs_within (set (sparks st)) (f_connections (run_pass cfg rnd dt st))"
  unfolding run_pass_def
  by (rule spark_loop_refs_within) (simp_all add: getNeighbors_in_sparks assms)

lemma update_refs_within:
  "refs_within (set (sparks (SparkSystem_update cfg rnd now time st)))
     (connections (SparkSystem_update cfg rnd now time st))"
proof -
  let ?st5 = "cull_phase cfg rnd now time st"
  have "refs_within (set (sparks ?st5)) (connections ?st5)"
    by (simp add: purge_dead_refs_within)
  then have "refs_within (set (sparks ?st5)) (f_connections (run_pass cfg rnd (frame_dt time st) ?st5))"
    by (rule run_pass_refs_within)
  then show ?thesis
    unfolding update_connections update_heap by (rule fade_out_refs_within)
qed

text \<open>
  Claim C3, as the code has it. A spark of the system whose age exceeds its lifetime
  is reported not alive by its update call; after the frame it is no longer in the
  list of sparks and no connection of the ledger refers to it. (Flow particles are
  not part of this: nothing in the frame removes them with their sparks.)
\<close>

theorem C3_expired_spark_culled:
  assumes "p \<in> set (sparks st)" and "p < sparkIdCounter st"
    and "lifetime (heap st p) < time - birth (heap st p)"
  shows "let st' = SparkSystem_update cfg rnd now time st
         in \<not> snd (Spark_update cfg (frame_dt time st) time (heap st p))
          \<and> p \<notin> set (sparks st')
          \<and> (\<forall>key c. connections st' key = Some c \<longrightarrow> conn_a c \<noteq> p \<and> conn_b c \<noteq> p)"
proof -
  have gone: "p \<notin> set (sparks (SparkSystem_update cfg rnd now time st))"
    unfolding update_heap using assms(2,3) by (rule expired_culled)
  then have "conn_a c \<noteq> p \<and> conn_b c \<noteq> p"
    if "connections (SparkSystem_update cfg rnd now time st) key = Some c" for key c
    using refs_withinD [OF update_refs_within that] by blast
  then show ?thesis
    using gone expired_not_alive [OF assms(3)] by (simp add: Let_def)
qed

theorem C3_expired_spark_culled_witness:
  "0 \<in> set (sparks example_connected) \<and> 0 < sparkIdCounter example_connected
   \<and> lifetime (heap example_connected 0) < 6010 - birth (heap example_connected 0)
   \<and> conn_a (the (connections example_connected (0, 1))) = 0
   \<and> \<not> snd (Spark_update CONFIG (frame_dt 6010 example_connected) 6010
              (heap example_connected 0))
   \<and> 0 \<notin> set (sparks (SparkSystem_update CONFIG (\<lambda>_. 0.5) (\<lambda>_. 0) 6010 example_connected))
   \<and> 0 \<notin> conn_a ` ran (connections
              (SparkSystem_update CONFIG (\<lambda>_. 0.5) (\<lambda>_. 0) 6010 example_connected))
   \<and> 0 \<notin> conn_b ` ran (connections
              (SparkSystem_update CONFIG (\<lambda>_. 0.5) (\<lambda>_. 0) 6010 example_connected))"
proof -
  have h: "0 \<in> set (sparks example_connected)" "0 < sparkIdCounter example_connected"
    "lifetime (heap example_connected 0) < 6010 - birth (heap example_connected 0)"
    by (simp_all add: example_connected_def example_system_def example_store_def spark0_def)
  have c: "conn_a (the (connections example_connected (0, 1))) = 0"
    by (simp add: example_connected_def)
  let ?st = "SparkSystem_update CONFIG (\<lambda>_. 0.5) (\<lambda>_. 0) 6010 example_connected"
  note inst = C3_expired_spark_culled [OF h, of CONFIG "\<lambda>_. 0.5" "\<lambda>_. 0", unfolded Let_def]
  from inst have none: "\<forall>key c. connections ?st key = Some c \<longrightarrow> conn_a c \<noteq> 0 \<and> conn_b c \<noteq> 0"
    by (elim conjE)
  have a: "0 \<notin> conn_a ` ran (connections ?st)"
  proof
    assume "0 \<in> conn_a ` ran (connections ?st)"
    then obtain x key where "connections ?st key = Some x" "conn_a x = 0"
      unfolding ran_def by auto
    with none show False by metis
  qed
  have b: "0 \<notin> conn_b ` ran (connections ?st)"
  proof
    assume "0 \<in> conn_b ` ran (connections ?st)"
    then obtain x key where "connections ?st key = Some x" "conn_b x = 0"
      unfolding ran_def by auto
    with none show False by metis
  qed
  from a b inst h c show ?thesis
    by (intro conjI) (elim conjE, assumption)+
qed

subsection \<open>Flow particles of an expired spark\<close>

lemma FlowParticle_update_survives:
  assumes "0 \<le> dt" and "0 \<le> flowParticleSpeed cfg"
    and "fp_t p + flowParticleSpeed cfg * dt < 1"
  shows "snd (FlowParticle_update cfg hp dt p)"
proof -
  define d where "d = max (Math_hypot (spark_x (hp (fp_receiver p)) - spark_x (hp (fp_giver p)))
                            (spark_y (hp (fp_receiver p)) - spark_y (hp (fp_giver p)))) 1"
  have d: "1 \<le> d" by (simp add: d_def)
  have "flowParticleSpeed cfg / d \<le> flowParticleSpeed cfg"
    using d assms(2) by (simp add: divide_le_eq mult_le_cancel_left1)
  then have "flowParticleSpeed cfg / d * dt \<le> flowParticleSpeed cfg * dt"
    using assms(1) by (rule mult_right_mono)
  then show ?thesis
    using assms(3) by (simp add: FlowParticle_update_def Let_def d_def [symmetric])
qed

lemma FlowParticle_update_refs [simp]:
  "fp_giver (fst (FlowParticle_update cfg hp dt p)) = fp_giver p"
  "fp_receiver (fst (FlowParticle_update cfg hp dt p)) = fp_receiver p"
  by (simp_all add: FlowParticle_update_def Let_def)

lemma update_flow_Cons:
  "snd (FlowParticle_update cfg hp dt p) \<Longrightarrow>
   update_flow cfg hp dt (p # ps) = fst (FlowParticle_update cfg hp dt p) # update_flow cfg hp dt ps"
  by (simp add: update_flow_def)

lemma interact_flow_prefix:
  "\<exists>ys. f_flowParticles (interact cfg rnd dt spark other fr) = f_flowParticles fr @ ys"
  by (simp add: interact_def resolve_def exchange_def spawn_flow_def Let_def)

lemma neighbor_loop_flow_prefix:
  "\<exists>ys. f_flowParticles (neighbor_loop cfg rnd dt spark ns fr) = f_flowParticles fr @ ys"
proof (induction ns arbitrary: fr)
  case Nil
  then show ?case by simp
next
  case (Cons other ns)
  obtain ys where "f_flowParticles (interact cfg rnd dt spark other fr) = f_flowParticles fr @ ys"
    using interact_flow_prefix by blast
  moreover obtain zs where "f_flowParticles (neighbor_loop cfg rnd dt spark ns
        (interact cfg rnd dt spark other fr))
      = f_flowParticles (interact cfg rnd dt spark other fr) @ zs"
    using Cons.IH by blast
  ultimately show ?case by simp
qed

lemma spark_loop_flow_prefix:
  "\<exists>ys. f_flowParticles (spark_loop cfg rnd dt gr ss fr) = f_flowParticles fr @ ys"
proof (induction ss arbitrary: fr)
  case Nil
  then show ?case by simp
next
  case (Cons spark ss)
  let ?fr1 = "neighbor_loop cfg rnd dt spark (getNeighbors (f_heap fr) gr spark) fr"
  obtain ys where "f_flowParticles ?fr1 = f_flowParticles fr @ ys"
    using neighbor_loop_flow_prefix by blast
  moreover obtain zs where "f_flowParticles (spark_loop cfg rnd dt gr ss ?fr1)
      = f_flowParticles ?fr1 @ zs"
    using Cons.IH by blast
  ultimately show ?case by simp
qed

lemma update_flow_first:
  assumes "flowParticles st = p # ps"
    and "0 \<le> frame_dt time st" and "0 \<le> flowParticleSpeed cfg"
    and "fp_t p + flowParticleSpeed cfg * frame_dt time st < 1"
  shows "\<exists>p' ps'. flowParticles (SparkSystem_update cfg rnd now time st) = p' # ps'
           \<and> fp_giver p' = fp_giver p \<and> fp_receiver p' = fp_receiver p"
proof -
  let ?st5 = "cull_phase cfg rnd now time st"
  let ?fr = "run_pass cfg rnd (frame_dt time st) ?st5"
  obtain ys where "f_flowParticles ?fr = f_flowParticles (start_frame ?st5) @ ys"
    unfolding run_pass_def using spark_loop_flow_prefix by blast
  then have fl: "f_flowParticles ?fr = p # (ps @ ys)"
    using assms(1) by simp
  have "flowParticles (SparkSystem_update cfg rnd now time st)
          = update_flow cfg (f_heap ?fr) (frame_dt time st) (p # (ps @ ys))"
    by (simp add: SparkSystem_update_phases Let_def fl)
  also have "\<dots> = fst (FlowParticle_update cfg (f_heap ?fr) (frame_dt time st) p)
                 # update_flow cfg (f_heap ?fr) (frame_dt time st) (ps @ ys)"
    by (intro update_flow_Cons FlowParticle_update_survives assms)
  finally show ?thesis by simp
qed

text \<open>
  Claim C3 as stated fails for flow particles. In \<open>example_flowing\<close> spark 0 has
  outlived its lifetime at time 6010 and is culled by the frame, and the flow particle
  that it gives to spark 1 is still among the flow particles after the frame.
\<close>

theorem C3_flow_particle_outlives_spark:
  "0 \<in> set (sparks example_flowing)
   \<and> lifetime (heap example_flowing 0) < 6010 - birth (heap example_flowing 0)
   \<and> 0 \<notin> set (sparks (SparkSystem_update CONFIG (\<lambda>_. 0.5) (\<lambda>_. 0) 6010 example_flowing))
   \<and> flowParticles (SparkSystem_update CONFIG (\<lambda>_. 0.5) (\<lambda>_. 0) 6010 example_flowing) \<noteq> []
   \<and> fp_giver (hd (flowParticles
         (SparkSystem_update CONFIG (\<lambda>_. 0.5) (\<lambda>_. 0) 6010 example_flowing))) = 0"
proof -
  have s: "0 \<in> set (sparks example_flowing)" "0 < sparkIdCounter example_flowing"
    "lifetime (heap example_flowing 0) < 6010 - birth (heap example_flowing 0)"
    by (simp_all add: example_flowing_def example_system_def example_store_def spark0_def)
  have gone: "0 \<notin> set (sparks (SparkSystem_update CONFIG (\<lambda>_. 0.5) (\<lambda>_. 0) 6010 example_flowing))"
    unfolding update_heap using s(2,3) by (rule expired_culled)
  have f: "flowParticles example_flowing = new_FlowParticle 0 1 (235, 170, 60) 0.5 # []"
    by (simp add: example_flowing_def)
  have dt: "frame_dt 6010 example_flowing = 0.01"
    by (simp add: frame_dt_def example_flowing_def)
  have "\<exists>p' ps'. flowParticles (SparkSystem_update CONFIG (\<lambda>_. 0.5) (\<lambda>_. 0) 6010 example_flowing)
            = p' # ps' \<and> fp_giver p' = fp_giver (new_FlowParticle 0 1 (235, 170, 60) 0.5)
            \<and> fp_receiver p' = fp_receiver (new_FlowParticle 0 1 (235, 170, 60) 0.5)"
    by (rule update_flow_first [OF f]) (simp_all add: dt CONFIG_def new_FlowParticle_def)
  then obtain p' ps' where
    "flowParticles (SparkSystem_update CONFIG (\<lambda>_. 0.5) (\<lambda>_. 0) 6010 example_flowing) = p' # ps'"
    "fp_giver p' = 0"
    by (auto simp: new_FlowParticle_def)
  then show ?thesis
    using s gone by simp
qed

subsection \<open>The interaction cap\<close>

lemma interact_position [simp]:
  "spark_x (f_heap (interact cfg rnd dt spark other fr) x) = spark_x (f_heap fr x)"
  "spark_y (f_heap (interact cfg rnd dt spark other fr) x) = spark_y (f_heap fr x)"
  by (rule interact_preserves [where Q = "\<lambda>hp. spark_x (hp x) = spark_x (f_heap fr x)"],
      simp_all add: pair_stable_def)
    (rule interact_preserves [where Q = "\<lambda>hp. spark_y (hp x) = spark_y (f_heap fr x)"],
      simp_all add: pair_stable_def)

lemma interact_in_radius:
  assumes "getConnectionKey spark other \<notin> processed fr"
    and "Math_hypot (spark_x (f_heap fr other) - spark_x (f_heap fr spark))
                    (spark_y (f_heap fr other) - spark_y (f_heap fr spark)) = d"
    and "0 < d" and "d < interactionRadius cfg"
  shows "interactions (interact cfg rnd dt spark other fr) = interactions fr + 1"
    and "processed (interact cfg rnd dt spark other fr)
           = insert (getConnectionKey spark other) (processed fr)"
    and "activeConnections (interact cfg rnd dt spark other fr)
           = insert (getConnectionKey spark other) (activeConnections fr)"
  using assms by (simp_all add: interact_def Let_def)

lemma example_positions:
  "spark_x (example_store 0) = 100" "spark_y (example_store 0) = 100"
  "spark_x (example_store 1) = 155" "spark_y (example_store 1) = 100"
  "spark_x (example_store 2) = 100" "spark_y (example_store 2) = 155"
  by (simp_all add: example_store_def spark0_def spark1_def spark2_def)

text \<open>
  Claim C2 fails on the code. The cap is tested once for each spark of the outer loop,
  not for each neighbour: with \<open>maxInteractionsPerFrame = 1\<close> the pass over the example
  population resolves both pairs of spark 0, (0, 2) and (0, 1), before the test stops
  the loop at spark 1. It leaves \<open>interactions = 2\<close>, above the cap.
\<close>

theorem C2_cap_exceeded:
  "maxInteractionsPerFrame cap_one = 1
   \<and> interactions (run_pass cap_one (\<lambda>_. 0.5) 0.1 example_system) = 2
   \<and> activeConnections (run_pass cap_one (\<lambda>_. 0.5) 0.1 example_system) = {(0, 1), (0, 2)}"
proof -
  let ?rnd = "\<lambda>_::nat. 0.5::real"
  define g where "g = rebuild_grid example_store [0, 1, 2] (new_SpatialGrid 110 1920 1080)"
  define fr0 where "fr0 = start_frame example_system"
  define fr1 where "fr1 = interact cap_one ?rnd 0.1 0 2 fr0"
  define fr2 where "fr2 = interact cap_one ?rnd 0.1 0 1 fr1"
  have cap: "maxInteractionsPerFrame cap_one = 1" and R: "interactionRadius cap_one = 110"
    by (simp_all add: cap_one_def CONFIG_def)
  have hp0: "f_heap fr0 = example_store" and i0: "interactions fr0 = 0"
    and p0: "processed fr0 = {}" and a0: "activeConnections fr0 = {}"
    by (simp_all add: fr0_def example_system_def)
  have k: "getConnectionKey 0 2 = (0, 2)" "getConnectionKey 0 1 = (0, 1)"
    by (simp_all add: getConnectionKey_def)
  have d02: "Math_hypot (spark_x (f_heap fr0 2) - spark_x (f_heap fr0 0))
                        (spark_y (f_heap fr0 2) - spark_y (f_heap fr0 0)) = 55"
    unfolding hp0 example_positions by simp
  have n0: "getConnectionKey 0 2 \<notin> processed fr0"
    unfolding p0 by simp
  have r: "(0::real) < 55" "55 < interactionRadius cap_one"
    unfolding R by simp_all
  have s1: "interactions fr1 = 1" "processed fr1 = {(0, 2)}"
    "activeConnections fr1 = {(0, 2)}"
    unfolding fr1_def interact_in_radius [OF n0 d02 r] i0 p0 a0 k by simp_all
  have d01: "Math_hypot (spark_x (f_heap fr1 1) - spark_x (f_heap fr1 0))
                        (spark_y (f_heap fr1 1) - spark_y (f_heap fr1 0)) = 55"
    unfolding fr1_def interact_position hp0 example_positions by simp
  have n1: "getConnectionKey 0 1 \<notin> processed fr1"
    unfolding s1 k by simp
  have s2: "interactions fr2 = 2" "activeConnections fr2 = {(0, 1), (0, 2)}"
    unfolding fr2_def interact_in_radius [OF n1 d01 r] s1 k by simp_all
  have nb: "getNeighbors (f_heap fr0) g 0 = [2, 1]"
    unfolding hp0 g_def by (rule example_neighbors)
  have "run_pass cap_one ?rnd 0.1 example_system = spark_loop cap_one ?rnd 0.1 g [0, 1, 2] fr0"
    by (simp add: run_pass_def g_def fr0_def example_system_def)
  also have "\<dots> = spark_loop cap_one ?rnd 0.1 g [1, 2] fr2"
    by (simp add: cap i0 nb fr2_def fr1_def)
  also have "\<dots> = fr2"
    by (simp add: cap s2)
  finally show ?thesis
    using s2 cap by simp
qed

end
